theory Spec2Isabelle
  imports Complex_Main
begin

section \<open>Errors\<close>

text \<open>
  The exceptions the Python of \<^verbatim>\<open>network_matrix.py\<close> can raise are values: a
  computation returns \<open>Inl e\<close> where the source raises, and \<open>Inr v\<close> where it returns.
  \<open>NonFinite\<close> is no Python exception: numpy returns \<open>nan\<close> or \<open>inf\<close> (with a warning)
  where a float is divided by zero; numbers are real numbers here, which have no such
  value, so a computation that would produce one stops with \<open>Inl NonFinite\<close>.
\<close>

datatype error = TypeError | ValueError | IndexError | ZeroDivisionError | NonFinite

definition ebind :: "error + 'a \<Rightarrow> ('a \<Rightarrow> error + 'b) \<Rightarrow> error + 'b" where
  "ebind m f = (case m of Inl e \<Rightarrow> Inl e | Inr v \<Rightarrow> f v)"

fun emap :: "('a \<Rightarrow> error + 'b) \<Rightarrow> 'a list \<Rightarrow> error + 'b list" where
  "emap f [] = Inr []"
| "emap f (x # xs) = ebind (f x) (\<lambda>y. ebind (emap f xs) (\<lambda>ys. Inr (y # ys)))"

section \<open>Training-schedule trackers\<close>

text \<open>
  \<^verbatim>\<open>class EarlyStopping\<close> and \<^verbatim>\<open>class LearningRate\<close>. The accuracy is the count of
  correct test results, a Python int; so are \<open>patience\<close> and the counters. The two
  classes name their fields alike; the fields of \<open>EarlyStopping\<close> carry the prefix
  \<open>es_\<close> here. A method returns its result and the object as it leaves it.
\<close>

record EarlyStopping =
  es_patience :: int
  es_best_accuracy :: int
  es_counter :: int
  es_accuracies :: "int list"

definition EarlyStopping_init :: "int \<Rightarrow> EarlyStopping" where
  "EarlyStopping_init p =
     \<lparr>es_patience = p, es_best_accuracy = 0, es_counter = 0, es_accuracies = []\<rparr>"

definition should_stop :: "EarlyStopping \<Rightarrow> int \<Rightarrow> bool \<times> EarlyStopping" where
  "should_stop self current_accuracy =
     (let s1 = self\<lparr>es_accuracies := es_accuracies self @ [current_accuracy]\<rparr>;
          s2 = (if current_accuracy > es_best_accuracy s1
                then s1\<lparr>es_best_accuracy := current_accuracy, es_counter := 0\<rparr>
                else s1\<lparr>es_counter := es_counter s1 + 1\<rparr>)
      in if es_counter s2 \<ge> es_patience s2 then (True, s2) else (False, s2))"

record LearningRate =
  patience :: int
  best_accuracy :: int
  counter :: int
  num_halves :: int
  accuracies :: "int list"

definition LearningRate_init :: "int \<Rightarrow> LearningRate" where
  "LearningRate_init p =
     \<lparr>patience = p, best_accuracy = 0, counter = 0, num_halves = 0, accuracies = []\<rparr>"

definition should_halve :: "LearningRate \<Rightarrow> int \<Rightarrow> bool \<times> LearningRate" where
  "should_halve self current_accuracy =
     (let s1 = self\<lparr>accuracies := accuracies self @ [current_accuracy]\<rparr>;
          s2 = (if current_accuracy > best_accuracy s1
                then s1\<lparr>best_accuracy := current_accuracy, counter := 0\<rparr>
                else s1\<lparr>counter := counter s1 + 1\<rparr>)
      in if counter s2 \<ge> patience s2
         then (True, s2\<lparr>counter := 0, num_halves := num_halves s2 + 1\<rparr>)
         else (False, s2))"

definition get_num_halves :: "LearningRate \<Rightarrow> int" where
  "get_num_halves self = num_halves self"

text \<open>
  Feeding a sequence of accuracies to a tracker, one call per element: the signals
  returned, in order, and the tracker after the last call.
\<close>

fun halve_run :: "LearningRate \<Rightarrow> int list \<Rightarrow> bool list \<times> LearningRate" where
  "halve_run t [] = ([], t)"
| "halve_run t (a # as) =
     (let (h, t') = should_halve t a; (hs, t'') = halve_run t' as in (h # hs, t''))"

fun stop_run :: "EarlyStopping \<Rightarrow> int list \<Rightarrow> bool list \<times> EarlyStopping" where
  "stop_run t [] = ([], t)"
| "stop_run t (a # as) =
     (let (h, t') = should_stop t a; (hs, t'') = stop_run t' as in (h # hs, t''))"

section \<open>Arrays\<close>

text \<open>
  The arrays of the source are numpy's two-dimensional arrays of floats: weight
  matrices, column vectors of biases, and batches with one column per sample. An array
  is its number of columns and its rows (of that length each: \<open>wf_ndarray\<close>), so its
  shape is \<open>(nrows, ncols)\<close>, also when it has no row. Floats are real numbers here:
  rounding and overflow are not modelled.
\<close>

datatype ndarray = NDArray (ncols: nat) (rows: "real list list")

definition nrows :: "ndarray \<Rightarrow> nat" where
  "nrows A = length (rows A)"

definition wf_ndarray :: "ndarray \<Rightarrow> bool" where
  "wf_ndarray A = list_all (\<lambda>r. length r = ncols A) (rows A)"

definition entry :: "ndarray \<Rightarrow> nat \<Rightarrow> nat \<Rightarrow> real" where
  "entry A i j = rows A ! i ! j"

definition same_shape :: "ndarray \<Rightarrow> ndarray \<Rightarrow> bool" where
  "same_shape A B = (nrows A = nrows B \<and> ncols A = ncols B)"

text \<open>\<^verbatim>\<open>np.zeros((r, c))\<close>.\<close>

definition np_zeros :: "nat \<Rightarrow> nat \<Rightarrow> ndarray" where
  "np_zeros r c = NDArray c (replicate r (replicate c 0))"

text \<open>An operation of one array and scalars, element by element (\<^verbatim>\<open>eta * nw\<close>, \<^verbatim>\<open>np.sign(w)\<close>).\<close>

definition np_map :: "(real \<Rightarrow> real) \<Rightarrow> ndarray \<Rightarrow> ndarray" where
  "np_map f A = NDArray (ncols A) (map (map f) (rows A))"

text \<open>
  An operation of two arrays, element by element, under numpy's broadcasting: along each
  axis the two lengths are equal, or one of them is 1 and that array is repeated along
  the axis; otherwise numpy raises ValueError.
\<close>

definition bshape :: "nat \<Rightarrow> nat \<Rightarrow> error + nat" where
  "bshape a b = (if a = b then Inr a else if a = 1 then Inr b else if b = 1 then Inr a
                 else Inl ValueError)"

definition bget :: "ndarray \<Rightarrow> nat \<Rightarrow> nat \<Rightarrow> real" where
  "bget A i j = rows A ! (if nrows A = 1 then 0 else i) ! (if ncols A = 1 then 0 else j)"

definition np_binop :: "(real \<Rightarrow> real \<Rightarrow> real) \<Rightarrow> ndarray \<Rightarrow> ndarray \<Rightarrow> error + ndarray" where
  "np_binop f A B =
     ebind (bshape (nrows A) (nrows B)) (\<lambda>r.
     ebind (bshape (ncols A) (ncols B)) (\<lambda>c.
       Inr (NDArray c (map (\<lambda>i. map (\<lambda>j. f (bget A i j) (bget B i j)) [0..<c]) [0..<r]))))"

definition np_add :: "ndarray \<Rightarrow> ndarray \<Rightarrow> error + ndarray" where
  "np_add = np_binop (+)"

definition np_sub :: "ndarray \<Rightarrow> ndarray \<Rightarrow> error + ndarray" where
  "np_sub = np_binop (-)"

definition np_mul :: "ndarray \<Rightarrow> ndarray \<Rightarrow> error + ndarray" where
  "np_mul = np_binop (*)"

text \<open>\<^verbatim>\<open>np.dot\<close> of two-dimensional arrays is the matrix product.\<close>

definition np_dot :: "ndarray \<Rightarrow> ndarray \<Rightarrow> error + ndarray" where
  "np_dot A B =
     (if ncols A \<noteq> nrows B then Inl ValueError
      else Inr (NDArray (ncols B)
             (map (\<lambda>r. map (\<lambda>j. sum_list (map (\<lambda>k. r ! k * rows B ! k ! j) [0..<ncols A]))
                         [0..<ncols B])
                  (rows A))))"

definition np_transpose :: "ndarray \<Rightarrow> ndarray" where
  "np_transpose A =
     NDArray (nrows A) (map (\<lambda>j. map (\<lambda>i. rows A ! i ! j) [0..<nrows A]) [0..<ncols A])"

text \<open>
  \<^verbatim>\<open>np.mean(A, axis=1, keepdims=True)\<close>: the mean of each row, as a column. The mean of
  a row of no element is \<open>nan\<close> in numpy.
\<close>

definition np_mean_axis1 :: "ndarray \<Rightarrow> error + ndarray" where
  "np_mean_axis1 A =
     (if ncols A = 0 \<and> 0 < nrows A then Inl NonFinite
      else Inr (NDArray 1 (map (\<lambda>r. [sum_list r / real (ncols A)]) (rows A))))"

text \<open>\<^verbatim>\<open>A / d\<close> for an array and a number: \<open>inf\<close> or \<open>nan\<close> elements when \<open>d\<close> is 0.\<close>

definition np_div :: "ndarray \<Rightarrow> real \<Rightarrow> error + ndarray" where
  "np_div A d =
     (if d = 0 \<and> 0 < nrows A \<and> 0 < ncols A then Inl NonFinite
      else Inr (np_map (\<lambda>x. x / d) A))"

text \<open>
  \<^verbatim>\<open>np.argmax(A)\<close>: the index, in the flattened array, of the first greatest element;
  ValueError on an array of no element.
\<close>

fun argmax_from :: "real \<Rightarrow> nat \<Rightarrow> nat \<Rightarrow> real list \<Rightarrow> nat" where
  "argmax_from best besti i [] = besti"
| "argmax_from best besti i (x # xs) =
     (if best < x then argmax_from x i (Suc i) xs else argmax_from best besti (Suc i) xs)"

definition np_argmax :: "ndarray \<Rightarrow> error + nat" where
  "np_argmax A = (case concat (rows A) of [] \<Rightarrow> Inl ValueError
                  | x # xs \<Rightarrow> Inr (argmax_from x 0 1 xs))"

text \<open>
  \<^verbatim>\<open>np.column_stack\<close> of a list of two-dimensional arrays puts them side by side;
  ValueError on the empty list and on arrays that differ in their number of rows.
\<close>

definition np_column_stack :: "ndarray list \<Rightarrow> error + ndarray" where
  "np_column_stack As =
     (case As of [] \<Rightarrow> Inl ValueError
      | A # Bs \<Rightarrow>
          if list_all (\<lambda>B. nrows B = nrows A) Bs
          then Inr (NDArray (sum_list (map ncols As))
                  (map (\<lambda>i. concat (map (\<lambda>B. rows B ! i) As)) [0..<nrows A]))
          else Inl ValueError)"

section \<open>Python lists and numbers\<close>

text \<open>
  \<^verbatim>\<open>xs[i]\<close> and \<^verbatim>\<open>xs[i] = v\<close>: a negative index counts from the end, and an index
  out of range raises IndexError. \<^verbatim>\<open>x / n\<close> on Python numbers raises
  ZeroDivisionError when \<open>n\<close> is 0.
\<close>

definition py_index :: "'a list \<Rightarrow> int \<Rightarrow> error + nat" where
  "py_index xs i =
     (let n = int (length xs); j = (if i < 0 then n + i else i)
      in if 0 \<le> j \<and> j < n then Inr (nat j) else Inl IndexError)"

definition py_get :: "'a list \<Rightarrow> int \<Rightarrow> error + 'a" where
  "py_get xs i = ebind (py_index xs i) (\<lambda>k. Inr (xs ! k))"

definition py_set :: "'a list \<Rightarrow> int \<Rightarrow> 'a \<Rightarrow> error + 'a list" where
  "py_set xs i v = ebind (py_index xs i) (\<lambda>k. Inr (xs[k := v]))"

definition py_div :: "real \<Rightarrow> int \<Rightarrow> error + real" where
  "py_div x n = (if n = 0 then Inl ZeroDivisionError else Inr (x / real_of_int n))"

section \<open>The sigmoid and the cost functions\<close>

text \<open>
  \<^verbatim>\<open>sigmoid\<close>, \<^verbatim>\<open>sigmoid_prime\<close>, and the \<^verbatim>\<open>delta\<close> of the two cost classes. (Their
  \<^verbatim>\<open>fn\<close>, the value of the cost, is called nowhere in the source and is left out.)
\<close>

definition sigmoid :: "ndarray \<Rightarrow> ndarray" where
  "sigmoid z = np_map (\<lambda>x. 1 / (1 + exp (- x))) z"

definition sigmoid_prime :: "ndarray \<Rightarrow> error + ndarray" where
  "sigmoid_prime z = np_mul (sigmoid z) (np_map (\<lambda>x. 1 - x) (sigmoid z))"

datatype cost = QuadraticCost | CrossEntropyCost

definition QuadraticCost_delta :: "ndarray \<Rightarrow> ndarray \<Rightarrow> ndarray \<Rightarrow> error + ndarray" where
  "QuadraticCost_delta Z A Y =
     ebind (np_sub A Y) (\<lambda>d. ebind (sigmoid_prime Z) (\<lambda>sp. np_mul d sp))"

definition CrossEntropyCost_delta :: "ndarray \<Rightarrow> ndarray \<Rightarrow> ndarray \<Rightarrow> error + ndarray" where
  "CrossEntropyCost_delta Z A Y = np_sub A Y"

definition cost_delta :: "cost \<Rightarrow> ndarray \<Rightarrow> ndarray \<Rightarrow> ndarray \<Rightarrow> error + ndarray" where
  "cost_delta c Z A Y =
     (case c of QuadraticCost \<Rightarrow> QuadraticCost_delta Z A Y
      | CrossEntropyCost \<Rightarrow> CrossEntropyCost_delta Z A Y)"

section \<open>Update strategies\<close>

text \<open>
  The \<^verbatim>\<open>update_step\<close> of \<^verbatim>\<open>L2_regularization\<close>, \<^verbatim>\<open>momentum\<close> and
  \<^verbatim>\<open>L1_regularization\<close>. The learning rate, the regularization strength and the
  momentum coefficient are Python floats, the training-set size a Python int. Each list
  comprehension runs over the \<^verbatim>\<open>zip\<close> of its lists, which stops at the shorter one;
  its expression is evaluated once per element, left to right.
\<close>

definition L2_update_step ::
  "real \<Rightarrow> real \<Rightarrow> int \<Rightarrow> ndarray list \<Rightarrow> ndarray list \<Rightarrow> ndarray list \<Rightarrow> ndarray list \<Rightarrow>
   ndarray list \<Rightarrow> real \<Rightarrow> error + (ndarray list \<times> ndarray list \<times> ndarray list)" where
  "L2_update_step eta lmbda n weights biases nabla_w nabla_b velocities mu =
     ebind (emap (\<lambda>(w, nw). ebind (py_div (eta * lmbda) n) (\<lambda>d.
                    np_sub (np_map (\<lambda>x. (1 - d) * x) w) (np_map (\<lambda>x. eta * x) nw)))
              (zip weights nabla_w)) (\<lambda>weights'.
     ebind (emap (\<lambda>(b, nb). np_sub b (np_map (\<lambda>x. eta * x) nb)) (zip biases nabla_b)) (\<lambda>biases'.
       Inr (weights', biases', velocities)))"

definition momentum_update_step ::
  "real \<Rightarrow> real \<Rightarrow> int \<Rightarrow> ndarray list \<Rightarrow> ndarray list \<Rightarrow> ndarray list \<Rightarrow> ndarray list \<Rightarrow>
   ndarray list \<Rightarrow> real \<Rightarrow> error + (ndarray list \<times> ndarray list \<times> ndarray list)" where
  "momentum_update_step eta lmbda n weights biases nabla_w nabla_b velocities mu =
     ebind (emap (\<lambda>(v, nw). np_sub (np_map (\<lambda>x. mu * x) v) (np_map (\<lambda>x. eta * x) nw))
              (zip velocities nabla_w)) (\<lambda>velocities'.
     ebind (emap (\<lambda>(w, v). np_add w v) (zip weights velocities')) (\<lambda>weights'.
     ebind (emap (\<lambda>(b, nb). np_sub b (np_map (\<lambda>x. eta * x) nb)) (zip biases nabla_b)) (\<lambda>biases'.
       Inr (weights', biases', velocities'))))"

definition L1_update_step ::
  "real \<Rightarrow> real \<Rightarrow> int \<Rightarrow> ndarray list \<Rightarrow> ndarray list \<Rightarrow> ndarray list \<Rightarrow> ndarray list \<Rightarrow>
   error + (ndarray list \<times> ndarray list)" where
  "L1_update_step eta lmbda n weights biases nabla_w nabla_b =
     ebind (emap (\<lambda>(w, nw). ebind (py_div (eta * lmbda) n) (\<lambda>d.
                    ebind (np_sub w (np_map (\<lambda>x. d * x) (np_map sgn w))) (\<lambda>u.
                      np_sub u (np_map (\<lambda>x. eta * x) nw))))
              (zip weights nabla_w)) (\<lambda>weights'.
     ebind (emap (\<lambda>(b, nb). np_sub b (np_map (\<lambda>x. eta * x) nb)) (zip biases nabla_b)) (\<lambda>biases'.
       Inr (weights', biases')))"

section \<open>The network\<close>

text \<open>
  \<^verbatim>\<open>class Network\<close>. The cost and the update strategy are the classes passed to the
  constructor; \<open>learning_rate\<close> is the tracker the constructor creates.
\<close>

datatype reg = L2_regularization | momentum | L1_regularization

record Network =
  num_layers :: int
  sizes :: "int list"
  biases :: "ndarray list"
  weights :: "ndarray list"
  velocities :: "ndarray list"
  cost :: cost
  reg :: reg
  learning_rate :: LearningRate

text \<open>
  \<^verbatim>\<open>default_weight_initializer\<close> draws the biases and then the weights from
  \<^verbatim>\<open>np.random.randn\<close>, which is outside the source: \<open>randn k r c\<close> stands for the
  array of shape \<open>(r, c)\<close> that the \<open>k\<close>-th call returns. \<^verbatim>\<open>randn\<close> raises ValueError
  on a negative dimension.
\<close>

definition default_weight_initializer ::
  "(nat \<Rightarrow> nat \<Rightarrow> nat \<Rightarrow> ndarray) \<Rightarrow> int list \<Rightarrow> error + (ndarray list \<times> ndarray list \<times> ndarray list)" where
  "default_weight_initializer randn szs =
     ebind (emap (\<lambda>(k, y). if y < 0 then Inl ValueError else Inr (randn k (nat y) 1))
              (enumerate 0 (drop 1 szs))) (\<lambda>biases.
     ebind (emap (\<lambda>(k, x, y). if y < 0 \<or> x < 0 then Inl ValueError
                              else np_div (randn k (nat y) (nat x)) (sqrt (real_of_int x)))
              (enumerate (length biases) (zip (butlast szs) (drop 1 szs)))) (\<lambda>weights.
       Inr (biases, weights, map (\<lambda>w. np_zeros (nrows w) (ncols w)) weights)))"

definition Network_init ::
  "(nat \<Rightarrow> nat \<Rightarrow> nat \<Rightarrow> ndarray) \<Rightarrow> int list \<Rightarrow> cost \<Rightarrow> reg \<Rightarrow> int \<Rightarrow> error + Network" where
  "Network_init randn szs c r p =
     ebind (default_weight_initializer randn szs) (\<lambda>(bs, ws, vs).
       Inr \<lparr>num_layers = int (length szs), sizes = szs, biases = bs, weights = ws,
            velocities = vs, cost = c, reg = r,
            learning_rate = LearningRate_init p\<rparr>)"

subsection \<open>The forward pass\<close>

fun feedforward_loop :: "(ndarray \<times> ndarray) list \<Rightarrow> ndarray \<Rightarrow> error + ndarray" where
  "feedforward_loop [] a = Inr a"
| "feedforward_loop ((b, w) # bws) a =
     ebind (np_dot w a) (\<lambda>d. ebind (np_add d b) (\<lambda>z. feedforward_loop bws (sigmoid z)))"

definition feedforward :: "Network \<Rightarrow> ndarray \<Rightarrow> error + ndarray" where
  "feedforward self a = feedforward_loop (zip (biases self) (weights self)) a"

subsection \<open>Backpropagation\<close>

text \<open>
  The first loop of \<^verbatim>\<open>backprop\<close>, over \<^verbatim>\<open>zip(self.biases, self.weights)\<close>: its
  state is \<open>activation\<close>, \<open>activations\<close> and \<open>zs\<close>.
\<close>

fun backprop_forward ::
  "(ndarray \<times> ndarray) list \<Rightarrow> ndarray \<Rightarrow> ndarray list \<Rightarrow> ndarray list \<Rightarrow>
   error + (ndarray list \<times> ndarray list)" where
  "backprop_forward [] activation activations zs = Inr (activations, zs)"
| "backprop_forward ((b, w) # bws) activation activations zs =
     ebind (np_dot w activation) (\<lambda>d.
     ebind (np_add d b) (\<lambda>z.
       let activation = sigmoid z
       in backprop_forward bws activation (activations @ [activation]) (zs @ [z])))"

text \<open>
  The second loop, \<^verbatim>\<open>for l in range(2, self.num_layers)\<close>: its state is \<open>delta\<close>,
  \<open>nabla_b\<close> and \<open>nabla_w\<close>; \<open>m\<close> is \<^verbatim>\<open>X.shape[1]\<close>.
\<close>

fun backprop_backward ::
  "ndarray list \<Rightarrow> ndarray list \<Rightarrow> ndarray list \<Rightarrow> nat \<Rightarrow> int list \<Rightarrow>
   ndarray \<Rightarrow> ndarray list \<Rightarrow> ndarray list \<Rightarrow> error + (ndarray list \<times> ndarray list)" where
  "backprop_backward ws zs activations m [] delta nabla_b nabla_w = Inr (nabla_b, nabla_w)"
| "backprop_backward ws zs activations m (l # ls) delta nabla_b nabla_w =
     ebind (py_get zs (- l)) (\<lambda>z.
     ebind (sigmoid_prime z) (\<lambda>sp.
     ebind (py_get ws (- l + 1)) (\<lambda>w.
     ebind (np_dot (np_transpose w) delta) (\<lambda>d.
     ebind (np_mul d sp) (\<lambda>delta.
     ebind (np_mean_axis1 delta) (\<lambda>mb.
     ebind (py_set nabla_b (- l) mb) (\<lambda>nabla_b.
     ebind (py_get activations (- l - 1)) (\<lambda>a.
     ebind (np_dot delta (np_transpose a)) (\<lambda>d2.
     ebind (np_div d2 (real m)) (\<lambda>gw.
     ebind (py_set nabla_w (- l) gw) (\<lambda>nabla_w.
       backprop_backward ws zs activations m ls delta nabla_b nabla_w)))))))))))"

definition backprop :: "Network \<Rightarrow> ndarray \<Rightarrow> ndarray \<Rightarrow> error + (ndarray list \<times> ndarray list)" where
  "backprop self X Y =
     (let nabla_b = map (\<lambda>b. np_zeros (nrows b) (ncols b)) (biases self);
          nabla_w = map (\<lambda>w. np_zeros (nrows w) (ncols w)) (weights self)
      in ebind (backprop_forward (zip (biases self) (weights self)) X [X] []) (\<lambda>(activations, zs).
         ebind (py_get zs (- 1)) (\<lambda>zL.
         ebind (py_get activations (- 1)) (\<lambda>aL.
         ebind (cost_delta (cost self) zL aL Y) (\<lambda>delta.
         ebind (np_mean_axis1 delta) (\<lambda>mb.
         ebind (py_set nabla_b (- 1) mb) (\<lambda>nabla_b.
         ebind (py_get activations (- 2)) (\<lambda>a.
         ebind (np_dot delta (np_transpose a)) (\<lambda>d2.
         ebind (np_div d2 (real (ncols X))) (\<lambda>gw.
         ebind (py_set nabla_w (- 1) gw) (\<lambda>nabla_w.
           backprop_backward (weights self) zs activations (ncols X)
             (map int [2..<nat (num_layers self)]) delta nabla_b nabla_w)))))))))))"

subsection \<open>One mini-batch\<close>

text \<open>
  \<^verbatim>\<open>update_mini_batch\<close> calls \<^verbatim>\<open>self.reg.update_step\<close> with nine positional
  arguments. The \<^verbatim>\<open>update_step\<close> of \<^verbatim>\<open>L1_regularization\<close> has seven parameters, so
  Python raises TypeError at that call. (The local \<^verbatim>\<open>velocities\<close> of zeros that the
  source builds first is never read.)
\<close>

definition reg_update_step ::
  "reg \<Rightarrow> real \<Rightarrow> real \<Rightarrow> int \<Rightarrow> ndarray list \<Rightarrow> ndarray list \<Rightarrow> ndarray list \<Rightarrow> ndarray list \<Rightarrow>
   ndarray list \<Rightarrow> real \<Rightarrow> error + (ndarray list \<times> ndarray list \<times> ndarray list)" where
  "reg_update_step r eta lmbda n ws bs nabla_w nabla_b vs mu =
     (case r of
        L2_regularization \<Rightarrow> L2_update_step eta lmbda n ws bs nabla_w nabla_b vs mu
      | momentum \<Rightarrow> momentum_update_step eta lmbda n ws bs nabla_w nabla_b vs mu
      | L1_regularization \<Rightarrow> Inl TypeError)"

definition update_mini_batch ::
  "Network \<Rightarrow> (ndarray \<times> ndarray) list \<Rightarrow> real \<Rightarrow> real \<Rightarrow> int \<Rightarrow> real \<Rightarrow> error + Network" where
  "update_mini_batch self mini_batch eta lmbda n mu =
     ebind (np_column_stack (map fst mini_batch)) (\<lambda>X.
     ebind (np_column_stack (map snd mini_batch)) (\<lambda>Y.
     ebind (backprop self X Y) (\<lambda>(nabla_b, nabla_w).
     ebind (reg_update_step (reg self) eta lmbda n (weights self) (biases self)
              nabla_w nabla_b (velocities self) mu) (\<lambda>(ws, bs, vs).
       Inr (self\<lparr>weights := ws, biases := bs, velocities := vs\<rparr>)))))"

subsection \<open>Evaluation\<close>

text \<open>
  \<^verbatim>\<open>evaluate\<close> iterates over \<open>test_data\<close>, a list of inputs with their labels (class
  indices), or \<open>None\<close> when SGD is called without test data: iterating over \<open>None\<close>
  raises TypeError.
\<close>

definition evaluate :: "Network \<Rightarrow> (ndarray \<times> int) list option \<Rightarrow> error + int" where
  "evaluate self test_data =
     (case test_data of
        None \<Rightarrow> Inl TypeError
      | Some td \<Rightarrow>
          ebind (emap (\<lambda>(x, y). ebind (feedforward self x) (\<lambda>a.
                                   ebind (np_argmax a) (\<lambda>k. Inr (int k, y)))) td)
            (\<lambda>test_results. Inr (sum_list (map (\<lambda>(x, y). if x = y then 1 else 0) test_results))))"

subsection \<open>The epoch loop\<close>

text \<open>
  \<^verbatim>\<open>SGD\<close>. \<^verbatim>\<open>random.shuffle\<close> is outside the source: \<open>shuffle j\<close> stands for the
  permutation it applies in epoch \<open>j\<close>. What the source prints is the list of events;
  the result is the network as the run leaves it, the final learning rate and the
  events. \<^verbatim>\<open>range(0, n, mini_batch_size)\<close> raises ValueError on a step of 0.
\<close>

datatype event =
    EpochScore nat int nat
  | EpochComplete nat
  | LearningHalved real
  | NumHalves int

definition py_range_step :: "nat \<Rightarrow> int \<Rightarrow> error + nat list" where
  "py_range_step n step =
     (if step = 0 then Inl ValueError
      else if step < 0 then Inr []
      else Inr (map (\<lambda>i. i * nat step) [0..<(n + nat step - 1) div nat step]))"

definition truthy :: "'a list option \<Rightarrow> bool" where
  "truthy xs = (case xs of None \<Rightarrow> False | Some ys \<Rightarrow> ys \<noteq> [])"

fun update_mini_batches ::
  "Network \<Rightarrow> (ndarray \<times> ndarray) list list \<Rightarrow> real \<Rightarrow> real \<Rightarrow> int \<Rightarrow> real \<Rightarrow> error + Network" where
  "update_mini_batches self [] eta lmbda n mu = Inr self"
| "update_mini_batches self (mini_batch # mini_batches) eta lmbda n mu =
     ebind (update_mini_batch self mini_batch eta lmbda n mu) (\<lambda>self.
       update_mini_batches self mini_batches eta lmbda n mu)"

text \<open>
  The body of the epoch loop, on the loop's state (the network, the training data as
  shuffled so far, the learning rate, the events so far); the flag returned with the new
  state is whether the body ends in \<^verbatim>\<open>break\<close>.
\<close>

type_synonym sgd_state = "Network \<times> (ndarray \<times> ndarray) list \<times> real \<times> event list"

definition SGD_epoch ::
  "(nat \<Rightarrow> (ndarray \<times> ndarray) list \<Rightarrow> (ndarray \<times> ndarray) list) \<Rightarrow> nat \<Rightarrow> int \<Rightarrow> real \<Rightarrow> real \<Rightarrow>
   (ndarray \<times> int) list option \<Rightarrow> nat \<Rightarrow> sgd_state \<Rightarrow> error + (bool \<times> sgd_state)" where
  "SGD_epoch shuffle n mini_batch_size lmbda mu test_data j st =
     (case st of (self, training_data, eta, out) \<Rightarrow>
        let training_data = shuffle j training_data
        in ebind (py_range_step n mini_batch_size) (\<lambda>ks.
           let mini_batches = map (\<lambda>k. take (nat mini_batch_size) (drop k training_data)) ks
           in ebind (update_mini_batches self mini_batches eta lmbda (int n) mu) (\<lambda>self.
              ebind (evaluate self test_data) (\<lambda>corrects.
                let out = out @ [if truthy test_data
                                 then EpochScore j corrects (length (the test_data))
                                 else EpochComplete j];
                    (halve, lr) = should_halve (learning_rate self) corrects;
                    self = self\<lparr>learning_rate := lr\<rparr>;
                    eta = (if halve then eta / 2 else eta);
                    out = (if halve then out @ [LearningHalved eta] else out);
                    num_halves = get_num_halves (learning_rate self);
                    out = out @ [NumHalves num_halves]
                in Inr (num_halves \<ge> 7, (self, training_data, eta, out))))))"

fun SGD_loop ::
  "(nat \<Rightarrow> (ndarray \<times> ndarray) list \<Rightarrow> (ndarray \<times> ndarray) list) \<Rightarrow> nat \<Rightarrow> int \<Rightarrow> real \<Rightarrow> real \<Rightarrow>
   (ndarray \<times> int) list option \<Rightarrow> nat list \<Rightarrow> sgd_state \<Rightarrow> error + sgd_state" where
  "SGD_loop shuffle n mini_batch_size lmbda mu test_data [] st = Inr st"
| "SGD_loop shuffle n mini_batch_size lmbda mu test_data (j # js) st =
     ebind (SGD_epoch shuffle n mini_batch_size lmbda mu test_data j st) (\<lambda>(stop, st).
       if stop then Inr st else SGD_loop shuffle n mini_batch_size lmbda mu test_data js st)"

definition SGD ::
  "(nat \<Rightarrow> (ndarray \<times> ndarray) list \<Rightarrow> (ndarray \<times> ndarray) list) \<Rightarrow> Network \<Rightarrow>
   (ndarray \<times> ndarray) list \<Rightarrow> int \<Rightarrow> int \<Rightarrow> real \<Rightarrow> real \<Rightarrow> real \<Rightarrow> (ndarray \<times> int) list option \<Rightarrow>
   error + (Network \<times> real \<times> event list)" where
  "SGD shuffle self training_data epochs mini_batch_size eta lmbda mu test_data =
     ebind (SGD_loop shuffle (length training_data) mini_batch_size lmbda mu test_data
              [0..<nat epochs] (self, training_data, eta, []))
       (\<lambda>(self, training_data, eta, out). Inr (self, eta, out))"

section \<open>Shapes\<close>

text \<open>
  Predicates the statements below use: an array of a given shape whose rows all have
  that many columns; two such arrays of one shape, as a layer's weights and their
  gradient are; and what one layer of an update computes, element by element:
  \<open>a * x - eta * g\<close> for \<open>step_of\<close>, \<open>x + v\<close> for \<open>sum_of\<close>.
\<close>

definition shaped :: "ndarray \<Rightarrow> nat \<Rightarrow> nat \<Rightarrow> bool" where
  "shaped A r c = (nrows A = r \<and> ncols A = c \<and> wf_ndarray A)"

definition conforms :: "ndarray \<Rightarrow> ndarray \<Rightarrow> bool" where
  "conforms A B = (wf_ndarray A \<and> wf_ndarray B \<and> same_shape A B)"

definition step_of :: "real \<Rightarrow> real \<Rightarrow> ndarray \<times> ndarray \<Rightarrow> ndarray \<Rightarrow> bool" where
  "step_of a eta p u = (wf_ndarray u \<and> same_shape u (fst p) \<and>
     (\<forall>i<nrows (fst p). \<forall>j<ncols (fst p).
        entry u i j = a * entry (fst p) i j - eta * entry (snd p) i j))"

definition sum_of :: "ndarray \<times> ndarray \<Rightarrow> ndarray \<Rightarrow> bool" where
  "sum_of p u = (wf_ndarray u \<and> same_shape u (fst p) \<and>
     (\<forall>i<nrows (fst p). \<forall>j<ncols (fst p). entry u i j = entry (fst p) i j + entry (snd p) i j))"

text \<open>An array of a given shape whose elements are those of a function of the indices.\<close>

definition represents :: "ndarray \<Rightarrow> nat \<Rightarrow> nat \<Rightarrow> (nat \<Rightarrow> nat \<Rightarrow> real) \<Rightarrow> bool" where
  "represents A r c f = (shaped A r c \<and> (\<forall>i<r. \<forall>j<c. entry A i j = f i j))"

section \<open>Backpropagation as the specification words it\<close>

text \<open>
  The quantities the specification of \<^verbatim>\<open>backprop\<close> names, written from its words and
  not from the code, as functions of the layer \<open>l\<close>, the neuron \<open>i\<close> and the sample
  \<open>j\<close> (a column of the batch): the activations \<open>a\<^sup>0 = X\<close>,
  \<open>a\<^sup>l\<^sup>+\<^sup>1 = sigmoid (z\<^sup>l)\<close> with the pre-activations \<open>z\<^sup>l = W\<^sup>l a\<^sup>l + b\<^sup>l\<close>; the
  error signal of the output layer, by the cost function; and the error signal of a
  layer below, \<open>\<delta>\<^sup>l = (W\<^sup>l\<^sup>+\<^sup>1)\<^sup>T \<delta>\<^sup>l\<^sup>+\<^sup>1 * sigmoid' (z\<^sup>l)\<close>. Layers count from 0: layer
  \<open>l\<close> has the weights \<open>weights ! l\<close>, the input \<open>a\<^sup>l\<close> and the output
  \<open>a\<^sup>l\<^sup>+\<^sup>1\<close>. \<open>spec_delta_below\<close> counts layers down from the output layer.
\<close>

definition spec_sigmoid :: "real \<Rightarrow> real" where
  "spec_sigmoid x = 1 / (1 + exp (- x))"

definition spec_sigmoid_prime :: "real \<Rightarrow> real" where
  "spec_sigmoid_prime x = spec_sigmoid x * (1 - spec_sigmoid x)"

fun spec_activation :: "Network \<Rightarrow> ndarray \<Rightarrow> nat \<Rightarrow> nat \<Rightarrow> nat \<Rightarrow> real" where
  "spec_activation self X 0 i j = entry X i j"
| "spec_activation self X (Suc l) i j =
     spec_sigmoid ((\<Sum>k<ncols (weights self ! l).
                      entry (weights self ! l) i k * spec_activation self X l k j)
                   + entry (biases self ! l) i 0)"

definition spec_z :: "Network \<Rightarrow> ndarray \<Rightarrow> nat \<Rightarrow> nat \<Rightarrow> nat \<Rightarrow> real" where
  "spec_z self X l i j =
     (\<Sum>k<ncols (weights self ! l). entry (weights self ! l) i k * spec_activation self X l k j)
     + entry (biases self ! l) i 0"

definition spec_output_delta :: "Network \<Rightarrow> ndarray \<Rightarrow> ndarray \<Rightarrow> nat \<Rightarrow> nat \<Rightarrow> real" where
  "spec_output_delta self X Y i j =
     (case cost self of
        QuadraticCost \<Rightarrow>
          (spec_activation self X (length (weights self)) i j - entry Y i j)
          * spec_sigmoid_prime (spec_z self X (length (weights self) - 1) i j)
      | CrossEntropyCost \<Rightarrow> spec_activation self X (length (weights self)) i j - entry Y i j)"

fun spec_delta_below :: "Network \<Rightarrow> ndarray \<Rightarrow> ndarray \<Rightarrow> nat \<Rightarrow> nat \<Rightarrow> nat \<Rightarrow> real" where
  "spec_delta_below self X Y 0 i j = spec_output_delta self X Y i j"
| "spec_delta_below self X Y (Suc d) i j =
     (\<Sum>k<nrows (weights self ! (length (weights self) - 1 - d)).
        entry (weights self ! (length (weights self) - 1 - d)) k i * spec_delta_below self X Y d k j)
     * spec_sigmoid_prime (spec_z self X (length (weights self) - 2 - d) i j)"

definition spec_delta :: "Network \<Rightarrow> ndarray \<Rightarrow> ndarray \<Rightarrow> nat \<Rightarrow> nat \<Rightarrow> nat \<Rightarrow> real" where
  "spec_delta self X Y l = spec_delta_below self X Y (length (weights self) - 1 - l)"

text \<open>
  The invariant of the data model: \<open>sizes\<close> has at least two layers, there is one
  weight matrix and one bias vector per layer after the first, \<open>weights ! l\<close> has shape
  \<open>(sizes ! (l + 1), sizes ! l)\<close>, and \<open>biases ! l\<close> is a column of \<open>sizes ! (l + 1)\<close>
  elements. \<open>forward_ok\<close> says that the first \<open>k\<close> layers of a forward pass hold the
  activations and pre-activations of the specification.
\<close>

definition width :: "Network \<Rightarrow> nat \<Rightarrow> nat" where
  "width self l = nat (sizes self ! l)"

definition Network_invariant :: "Network \<Rightarrow> bool" where
  "Network_invariant self =
     (num_layers self = int (length (sizes self)) \<and> 2 \<le> length (sizes self) \<and>
      length (weights self) = length (sizes self) - 1 \<and>
      length (biases self) = length (sizes self) - 1 \<and>
      (\<forall>l<length (sizes self) - 1.
         shaped (weights self ! l) (width self (l + 1)) (width self l) \<and>
         shaped (biases self ! l) (width self (l + 1)) 1))"

definition forward_ok :: "Network \<Rightarrow> ndarray \<Rightarrow> nat \<Rightarrow> nat \<Rightarrow> ndarray list \<Rightarrow> ndarray list \<Rightarrow> bool" where
  "forward_ok self X m k acts zs =
     (length acts = k + 1 \<and> length zs = k \<and>
      (\<forall>l\<le>k. represents (acts ! l) (width self l) m (spec_activation self X l)) \<and>
      (\<forall>l<k. represents (zs ! l) (width self (l + 1)) m (spec_z self X l)))"

text \<open>
  The gradients the specification asks for at layer \<open>l\<close>, for a batch of \<open>m\<close> samples:
  the bias gradient is the mean over the samples of the error signal, and the weight
  gradient is the error signal times the transposed activations that enter the layer,
  divided by the batch size. \<open>gradients_ok\<close> says that the layers from \<open>c\<close> upwards of
  two lists of arrays hold these gradients.
\<close>

definition bias_gradient :: "Network \<Rightarrow> ndarray \<Rightarrow> ndarray \<Rightarrow> nat \<Rightarrow> nat \<Rightarrow> ndarray \<Rightarrow> bool" where
  "bias_gradient self X Y m l g =
     represents g (width self (l + 1)) 1 (\<lambda>i j. (\<Sum>s<m. spec_delta self X Y l i s) / real m)"

definition weight_gradient :: "Network \<Rightarrow> ndarray \<Rightarrow> ndarray \<Rightarrow> nat \<Rightarrow> nat \<Rightarrow> ndarray \<Rightarrow> bool" where
  "weight_gradient self X Y m l g =
     represents g (width self (l + 1)) (width self l)
       (\<lambda>i k. (\<Sum>s<m. spec_delta self X Y l i s * spec_activation self X l k s) / real m)"

definition gradients_ok ::
  "Network \<Rightarrow> ndarray \<Rightarrow> ndarray \<Rightarrow> nat \<Rightarrow> nat \<Rightarrow> ndarray list \<Rightarrow> ndarray list \<Rightarrow> bool" where
  "gradients_ok self X Y m c nb nw =
     (length nb = length (weights self) \<and> length nw = length (weights self) \<and>
      (\<forall>l. c \<le> l \<and> l < length (weights self) \<longrightarrow>
           bias_gradient self X Y m l (nb ! l) \<and> weight_gradient self X Y m l (nw ! l)))"

section \<open>The schedule of a training run\<close>

text \<open>
  The accuracy of each epoch of a run, read from what the run printed: the count it
  printed with the epoch, or 0 for an epoch it only reported complete (the test set is
  empty then, and \<^verbatim>\<open>evaluate\<close> returned 0). \<open>schedule_followed lr eta epochs cs lr' eta'\<close>
  says that a run of at most \<open>epochs\<close> epochs with these accuracies fed them, one per
  epoch and in order, to the tracker \<open>lr\<close>, which became \<open>lr'\<close>; that the learning rate
  was divided by 2 once per halve signal; that the run ended before its last epoch only
  with 7 halvings or more; and that no epoch but the last left 7 halvings or more.
\<close>

fun epoch_scores :: "event list \<Rightarrow> int list" where
  "epoch_scores [] = []"
| "epoch_scores (EpochScore j c n # es) = c # epoch_scores es"
| "epoch_scores (EpochComplete j # es) = 0 # epoch_scores es"
| "epoch_scores (e # es) = epoch_scores es"

definition schedule_followed ::
  "LearningRate \<Rightarrow> real \<Rightarrow> nat \<Rightarrow> int list \<Rightarrow> LearningRate \<Rightarrow> real \<Rightarrow> bool" where
  "schedule_followed lr eta epochs cs lr' eta' =
     (length cs \<le> epochs \<and>
      lr' = snd (halve_run lr cs) \<and>
      eta' = eta / 2 ^ count_list (fst (halve_run lr cs)) True \<and>
      (length cs < epochs \<longrightarrow> 7 \<le> num_halves lr') \<and>
      (\<forall>k. 0 < k \<and> k < length cs \<longrightarrow> num_halves (snd (halve_run lr (take k cs))) < 7))"

section \<open>Example inputs\<close>

text \<open>
  A network of sizes \<open>[1, 1]\<close> with weight 0 and bias 0, the cross-entropy cost, a
  given update strategy and a given patience: every sigmoid it computes is \<open>1 / 2\<close>.
\<close>

definition example_net :: "reg \<Rightarrow> int \<Rightarrow> Network" where
  "example_net r p =
     \<lparr>num_layers = 2, sizes = [1, 1], biases = [NDArray 1 [[0]]], weights = [NDArray 1 [[0]]],
      velocities = [NDArray 1 [[0]]], cost = CrossEntropyCost, reg = r,
      learning_rate = LearningRate_init p\<rparr>"

text \<open>
  A training set of one sample on which that network has a zero gradient, and a test
  set of one sample whose label is not the class the network predicts.
\<close>

definition example_training :: "(ndarray \<times> ndarray) list" where
  "example_training = [(NDArray 1 [[0]], NDArray 1 [[1 / 2]])]"

definition example_test :: "(ndarray \<times> int) list option" where
  "example_test = Some [(NDArray 1 [[1]], 1)]"

text \<open>
  The network and the printed events that a run of 10 epochs on these leaves, from the
  learning rate 1 and with patience 1: it stops after 7 epochs.
\<close>

definition example_trained :: Network where
  "example_trained =
     (example_net L2_regularization 1)
       \<lparr>learning_rate := \<lparr>patience = 1, best_accuracy = 0, counter = 0, num_halves = 7,
                            accuracies = [0, 0, 0, 0, 0, 0, 0]\<rparr>\<rparr>"

definition example_events :: "event list" where
  "example_events =
     [EpochScore 0 0 1, LearningHalved (1 / 2), NumHalves 1,
      EpochScore 1 0 1, LearningHalved (1 / 4), NumHalves 2,
      EpochScore 2 0 1, LearningHalved (1 / 8), NumHalves 3,
      EpochScore 3 0 1, LearningHalved (1 / 16), NumHalves 4,
      EpochScore 4 0 1, LearningHalved (1 / 32), NumHalves 5,
      EpochScore 5 0 1, LearningHalved (1 / 64), NumHalves 6,
      EpochScore 6 0 1, LearningHalved (1 / 128), NumHalves 7]"

section \<open>Properties of the trackers\<close>

lemma should_halve_step:
  "should_halve t a =
     (if best_accuracy t < a
      then (if patience t \<le> 0
            then (True, t\<lparr>accuracies := accuracies t @ [a], best_accuracy := a, counter := 0,
                           num_halves := num_halves t + 1\<rparr>)
            else (False, t\<lparr>accuracies := accuracies t @ [a], best_accuracy := a, counter := 0\<rparr>))
      else (if patience t \<le> counter t + 1
            then (True, t\<lparr>accuracies := accuracies t @ [a], counter := 0,
                           num_halves := num_halves t + 1\<rparr>)
            else (False, t\<lparr>accuracies := accuracies t @ [a], counter := counter t + 1\<rparr>)))"
  by (simp add: should_halve_def Let_def)

lemma halve_run_increasing:
  "0 < patience t \<Longrightarrow> sorted_wrt (<) (best_accuracy t # xs) \<Longrightarrow>
   fst (halve_run t xs) = replicate (length xs) False"
proof (induction xs arbitrary: t)
  case Nil
  then show ?case by simp
next
  case (Cons x xs)
  let ?t' = "t\<lparr>accuracies := accuracies t @ [x], best_accuracy := x, counter := 0\<rparr>"
  from Cons.prems have lt: "best_accuracy t < x" by simp
  with Cons.prems have step: "should_halve t x = (False, ?t')"
    by (simp add: should_halve_step)
  have "sorted_wrt (<) (best_accuracy ?t' # xs)" using Cons.prems by simp
  moreover have "0 < patience ?t'" using Cons.prems by simp
  ultimately have "fst (halve_run ?t' xs) = replicate (length xs) False"
    by (rule Cons.IH[rotated])
  then show ?case using step by (simp add: split_beta)
qed

lemma halve_run_plateau_prefix:
  "counter t + int (length ys) < patience t \<Longrightarrow> \<forall>y\<in>set ys. y \<le> best_accuracy t \<Longrightarrow>
   halve_run t ys =
     (replicate (length ys) False,
      t\<lparr>accuracies := accuracies t @ ys, counter := counter t + int (length ys)\<rparr>)"
proof (induction ys arbitrary: t)
  case Nil
  then show ?case by simp
next
  case (Cons y ys)
  let ?t' = "t\<lparr>accuracies := accuracies t @ [y], counter := counter t + 1\<rparr>"
  have step: "should_halve t y = (False, ?t')"
    using Cons.prems by (simp add: should_halve_step)
  have "halve_run ?t' ys =
     (replicate (length ys) False,
      ?t'\<lparr>accuracies := accuracies ?t' @ ys, counter := counter ?t' + int (length ys)\<rparr>)"
    using Cons.prems by (intro Cons.IH) auto
  then show ?case using step by (simp add: add.assoc)
qed

lemma halve_run_append:
  "halve_run t (xs @ ys) =
     (fst (halve_run t xs) @ fst (halve_run (snd (halve_run t xs)) ys),
      snd (halve_run (snd (halve_run t xs)) ys))"
  by (induction xs arbitrary: t) (simp_all add: split_beta)

lemma halve_run_plateau:
  assumes "0 < patience t" "counter t = 0" "length ys = nat (patience t)"
    "\<forall>y\<in>set ys. y \<le> best_accuracy t"
  shows "halve_run t ys =
     (replicate (length ys - 1) False @ [True],
      t\<lparr>accuracies := accuracies t @ ys, counter := 0, num_halves := num_halves t + 1\<rparr>)"
proof -
  from assms have ne: "ys \<noteq> []" by auto
  then obtain zs z where ys: "ys = zs @ [z]" by (metis rev_exhaust)
  have len: "int (length zs) = patience t - 1" using assms ys by simp
  have pre: "halve_run t zs =
     (replicate (length zs) False,
      t\<lparr>accuracies := accuracies t @ zs, counter := counter t + int (length zs)\<rparr>)"
    using assms ys len by (intro halve_run_plateau_prefix) auto
  show ?thesis
    using assms ys len
    by (simp add: halve_run_append pre should_halve_step)
qed

lemma halve_run_patience0:
  "patience t = 0 \<Longrightarrow> counter t = 0 \<Longrightarrow>
   fst (halve_run t xs) = replicate (length xs) True \<and>
   num_halves (snd (halve_run t xs)) = num_halves t + int (length xs)"
proof (induction xs arbitrary: t)
  case Nil
  then show ?case by simp
next
  case (Cons x xs)
  define t' where "t' = snd (should_halve t x)"
  have step: "should_halve t x = (True, t')" and
    t': "patience t' = 0" "counter t' = 0" "num_halves t' = num_halves t + 1"
    using Cons.prems by (simp_all add: t'_def should_halve_step)
  from Cons.IH[OF t'(1,2)] step t'(3) show ?case by (simp add: split_beta)
qed

lemma stop_run_patience0:
  "es_patience t = 0 \<Longrightarrow> 0 \<le> es_counter t \<Longrightarrow>
   fst (stop_run t xs) = replicate (length xs) True"
proof (induction xs arbitrary: t)
  case Nil
  then show ?case by simp
next
  case (Cons x xs)
  define t' where "t' = snd (should_stop t x)"
  have step: "should_stop t x = (True, t')" and
    t': "es_patience t' = 0" "0 \<le> es_counter t'"
    using Cons.prems by (simp_all add: t'_def should_stop_def Let_def)
  from Cons.IH[OF t'] step show ?case by (simp add: split_beta)
qed

text \<open>
  Claim C2 (as amended). For a tracker with positive patience, a call to
  \<open>should_halve\<close> with an accuracy strictly above \<open>best_accuracy\<close> stores it, resets
  \<open>counter\<close> to 0 and signals no halve; any other accuracy increments \<open>counter\<close>, and
  when \<open>counter\<close> thereby reaches \<open>patience\<close> the call signals a halve, resets
  \<open>counter\<close> to 0 and increments \<open>num_halves\<close>. Feeding a strictly increasing sequence
  that starts strictly above the current \<open>best_accuracy\<close> never signals a halve.
  Starting from \<open>counter = 0\<close>, feeding \<open>patience\<close> accuracies none of which exceeds
  \<open>best_accuracy\<close> signals exactly one halve, at the last of them, and leaves
  \<open>counter\<close> at 0 and \<open>num_halves\<close> one higher.
\<close>

theorem should_halve_schedule:
  "0 < patience t \<Longrightarrow>
   should_halve t a =
     (if best_accuracy t < a
      then (False, t\<lparr>accuracies := accuracies t @ [a], best_accuracy := a, counter := 0\<rparr>)
      else if patience t \<le> counter t + 1
      then (True, t\<lparr>accuracies := accuracies t @ [a], counter := 0,
                     num_halves := num_halves t + 1\<rparr>)
      else (False, t\<lparr>accuracies := accuracies t @ [a], counter := counter t + 1\<rparr>)) \<and>
   (sorted_wrt (<) (best_accuracy t # xs) \<longrightarrow>
      fst (halve_run t xs) = replicate (length xs) False) \<and>
   (counter t = 0 \<and> length ys = nat (patience t) \<and> (\<forall>y\<in>set ys. y \<le> best_accuracy t) \<longrightarrow>
      fst (halve_run t ys) = replicate (length ys - 1) False @ [True] \<and>
      counter (snd (halve_run t ys)) = 0 \<and>
      num_halves (snd (halve_run t ys)) = num_halves t + 1)"
proof (intro conjI impI)
  assume p: "0 < patience t"
  then show "should_halve t a =
     (if best_accuracy t < a
      then (False, t\<lparr>accuracies := accuracies t @ [a], best_accuracy := a, counter := 0\<rparr>)
      else if patience t \<le> counter t + 1
      then (True, t\<lparr>accuracies := accuracies t @ [a], counter := 0,
                     num_halves := num_halves t + 1\<rparr>)
      else (False, t\<lparr>accuracies := accuracies t @ [a], counter := counter t + 1\<rparr>))"
    by (simp add: should_halve_step)
  {
    assume "sorted_wrt (<) (best_accuracy t # xs)"
    with p show "fst (halve_run t xs) = replicate (length xs) False"
      by (rule halve_run_increasing)
  }
  {
    assume a: "counter t = 0 \<and> length ys = nat (patience t) \<and> (\<forall>y\<in>set ys. y \<le> best_accuracy t)"
    with p have run: "halve_run t ys =
       (replicate (length ys - 1) False @ [True],
        t\<lparr>accuracies := accuracies t @ ys, counter := 0, num_halves := num_halves t + 1\<rparr>)"
      by (intro halve_run_plateau) auto
    show "fst (halve_run t ys) = replicate (length ys - 1) False @ [True]"
      by (simp add: run)
    show "counter (snd (halve_run t ys)) = 0" by (simp add: run)
    show "num_halves (snd (halve_run t ys)) = num_halves t + 1" by (simp add: run)
  }
qed

theorem should_halve_schedule_witness:
  "0 < patience (LearningRate_init 2) \<and>
   should_halve (LearningRate_init 2) 4 =
     (False, \<lparr>patience = 2, best_accuracy = 4, counter = 0, num_halves = 0, accuracies = [4]\<rparr>) \<and>
   sorted_wrt (<) (best_accuracy (LearningRate_init 2) # [1, 2, 5]) \<and>
   fst (halve_run (LearningRate_init 2) [1, 2, 5]) = [False, False, False] \<and>
   counter (LearningRate_init 2) = 0 \<and>
   length [0, 0 :: int] = nat (patience (LearningRate_init 2)) \<and>
   fst (halve_run (LearningRate_init 2) [0, 0]) = [False, True] \<and>
   counter (snd (halve_run (LearningRate_init 2) [0, 0])) = 0 \<and>
   num_halves (snd (halve_run (LearningRate_init 2) [0, 0])) = 1"
  using should_halve_schedule [of "LearningRate_init 2" 4 "[1, 2, 5]" "[0, 0]"]
  by (simp add: LearningRate_init_def)

text \<open>
  The claim as stated fails: a tracker as constructed (\<open>best_accuracy = 0\<close>) with
  patience 1, fed the strictly increasing sequence 0, 1, signals a halve at the first
  call, since 0 does not strictly exceed the initial \<open>best_accuracy\<close>.
\<close>

theorem should_halve_increasing_counterexample:
  "0 < patience (LearningRate_init 1) \<and> sorted_wrt (<) [0, 1 :: int] \<and>
   fst (halve_run (LearningRate_init 1) [0, 1]) = [True, False]"
  by (simp add: LearningRate_init_def should_halve_def Let_def)

text \<open>
  Claim C10. A \<open>LearningRate\<close> or \<open>EarlyStopping\<close> tracker constructed with patience 0
  answers True at every call, whatever accuracies it is fed (improving ones included),
  and \<open>should_halve\<close> increments \<open>num_halves\<close> at every call.
\<close>

theorem patience_zero_always_signals:
  "fst (halve_run (LearningRate_init 0) xs) = replicate (length xs) True \<and>
   num_halves (snd (halve_run (LearningRate_init 0) xs)) = int (length xs) \<and>
   fst (stop_run (EarlyStopping_init 0) xs) = replicate (length xs) True"
proof -
  have "patience (LearningRate_init 0) = 0" "counter (LearningRate_init 0) = 0"
    "num_halves (LearningRate_init 0) = 0"
    by (simp_all add: LearningRate_init_def)
  moreover have "es_patience (EarlyStopping_init 0) = 0" "0 \<le> es_counter (EarlyStopping_init 0)"
    by (simp_all add: EarlyStopping_init_def)
  ultimately show ?thesis
    using halve_run_patience0 [of "LearningRate_init 0" xs]
      stop_run_patience0 [of "EarlyStopping_init 0" xs]
    by simp
qed

theorem patience_zero_always_signals_witness:
  "fst (halve_run (LearningRate_init 0) [3, 5, 1]) = [True, True, True] \<and>
   num_halves (snd (halve_run (LearningRate_init 0) [3, 5, 1])) = 3 \<and>
   fst (stop_run (EarlyStopping_init 0) [3, 5, 1]) = [True, True, True]"
  using patience_zero_always_signals [of "[3, 5, 1]"]
  by (simp add: numeral_3_eq_3)

section \<open>Properties of the arrays\<close>

lemma ebind_Inr [simp]: "ebind (Inr v) f = f v"
  by (simp add: ebind_def)

lemma ebind_Inl [simp]: "ebind (Inl e) f = Inl e"
  by (simp add: ebind_def)

lemma ebind_eq_Inr: "ebind m f = Inr y \<longleftrightarrow> (\<exists>v. m = Inr v \<and> f v = Inr y)"
  by (cases m) simp_all

lemma emap_list_all2:
  "(\<And>x. x \<in> set xs \<Longrightarrow> \<exists>y. f x = Inr y \<and> P x y) \<Longrightarrow>
   \<exists>ys. emap f xs = Inr ys \<and> list_all2 P xs ys"
proof (induction xs)
  case Nil
  then show ?case by simp
next
  case (Cons x xs)
  obtain y where y: "f x = Inr y" "P x y" using Cons.prems by auto
  obtain ys where ys: "emap f xs = Inr ys" "list_all2 P xs ys" using Cons by auto
  show ?case using y ys by simp
qed

lemma wf_row_length: "wf_ndarray A \<Longrightarrow> i < nrows A \<Longrightarrow> length (rows A ! i) = ncols A"
  by (simp add: wf_ndarray_def nrows_def list_all_length)

lemma table_shaped:
  "shaped (NDArray c (map (\<lambda>i. map (g i) [0..<c]) [0..<r])) r c"
  by (simp add: shaped_def nrows_def wf_ndarray_def list_all_iff)

lemma table_entry:
  "i < r \<Longrightarrow> j < c \<Longrightarrow> entry (NDArray c (map (\<lambda>i. map (g i) [0..<c]) [0..<r])) i j = g i j"
  by (simp add: entry_def)

lemma np_map_shaped: "shaped A r c \<Longrightarrow> shaped (np_map f A) r c"
  by (simp add: np_map_def shaped_def nrows_def wf_ndarray_def list_all_iff)

lemma np_map_entry:
  "shaped A r c \<Longrightarrow> i < r \<Longrightarrow> j < c \<Longrightarrow> entry (np_map f A) i j = f (entry A i j)"
  using wf_row_length[of A i]
  by (simp add: np_map_def shaped_def entry_def nrows_def)

lemma bget_entry: "i < nrows A \<Longrightarrow> j < ncols A \<Longrightarrow> bget A i j = entry A i j"
  by (auto simp add: bget_def entry_def)

lemma bget_column: "i < nrows A \<Longrightarrow> ncols A = 1 \<Longrightarrow> bget A i j = entry A i 0"
  by (auto simp add: bget_def entry_def)

lemma np_binop_same:
  assumes "shaped A r c" "shaped B r c"
  shows "\<exists>C. np_binop f A B = Inr C \<and> shaped C r c \<and>
             (\<forall>i<r. \<forall>j<c. entry C i j = f (entry A i j) (entry B i j))"
proof -
  let ?C = "NDArray c (map (\<lambda>i. map (\<lambda>j. f (bget A i j) (bget B i j)) [0..<c]) [0..<r])"
  have "np_binop f A B = Inr ?C"
    using assms by (simp add: np_binop_def bshape_def shaped_def)
  moreover have "shaped ?C r c" by (rule table_shaped)
  moreover have "\<forall>i<r. \<forall>j<c. entry ?C i j = f (entry A i j) (entry B i j)"
    using assms by (simp add: table_entry bget_entry shaped_def)
  ultimately show ?thesis by blast
qed

lemma np_binop_column:
  assumes "shaped A r c" "shaped b r 1"
  shows "\<exists>C. np_binop f A b = Inr C \<and> shaped C r c \<and>
             (\<forall>i<r. \<forall>j<c. entry C i j = f (entry A i j) (entry b i 0))"
proof -
  let ?C = "NDArray c (map (\<lambda>i. map (\<lambda>j. f (bget A i j) (bget b i j)) [0..<c]) [0..<r])"
  have "np_binop f A b = Inr ?C"
    using assms by (simp add: np_binop_def bshape_def shaped_def)
  moreover have "shaped ?C r c" by (rule table_shaped)
  moreover have "\<forall>i<r. \<forall>j<c. entry ?C i j = f (entry A i j) (entry b i 0)"
    using assms by (simp add: table_entry bget_entry bget_column shaped_def)
  ultimately show ?thesis by blast
qed

lemma np_dot_shaped:
  assumes "shaped A r k" "shaped B k c"
  shows "\<exists>C. np_dot A B = Inr C \<and> shaped C r c \<and>
             (\<forall>i<r. \<forall>j<c. entry C i j = (\<Sum>l<k. entry A i l * entry B l j))"
proof -
  let ?g = "\<lambda>i j. sum_list (map (\<lambda>l. rows A ! i ! l * rows B ! l ! j) [0..<k])"
  let ?C = "NDArray c (map (\<lambda>i. map (?g i) [0..<c]) [0..<r])"
  have rows: "map (\<lambda>ro. map (\<lambda>j. sum_list (map (\<lambda>l. ro ! l * rows B ! l ! j) [0..<k])) [0..<c]) (rows A)
      = map (\<lambda>i. map (?g i) [0..<c]) [0..<r]"
    using assms(1) by (intro nth_equalityI) (simp_all add: shaped_def nrows_def)
  have "np_dot A B = Inr ?C"
    using assms rows by (simp add: np_dot_def shaped_def)
  moreover have "shaped ?C r c" by (rule table_shaped)
  moreover have "\<forall>i<r. \<forall>j<c. entry ?C i j = (\<Sum>l<k. entry A i l * entry B l j)"
    by (simp add: table_entry entry_def sum_list_sum_nth atLeast0LessThan)
  ultimately show ?thesis by blast
qed

lemma np_transpose_shaped: "shaped A r c \<Longrightarrow> shaped (np_transpose A) c r"
  using table_shaped[of r "\<lambda>j i. rows A ! i ! j" c]
  by (simp add: np_transpose_def shaped_def)

lemma np_transpose_entry:
  "shaped A r c \<Longrightarrow> i < c \<Longrightarrow> j < r \<Longrightarrow> entry (np_transpose A) i j = entry A j i"
  by (simp add: np_transpose_def shaped_def entry_def)

lemma np_mean_axis1_shaped:
  assumes "shaped A r c" "0 < c"
  shows "\<exists>C. np_mean_axis1 A = Inr C \<and> shaped C r 1 \<and>
             (\<forall>i<r. entry C i 0 = (\<Sum>j<c. entry A i j) / real c)"
proof -
  let ?C = "NDArray 1 (map (\<lambda>ro. [sum_list ro / real (ncols A)]) (rows A))"
  have "np_mean_axis1 A = Inr ?C" using assms by (simp add: np_mean_axis1_def shaped_def)
  moreover have "shaped ?C r 1"
    using assms by (simp add: shaped_def nrows_def wf_ndarray_def list_all_iff)
  moreover have "\<forall>i<r. entry ?C i 0 = (\<Sum>j<c. entry A i j) / real c"
  proof (intro allI impI)
    fix i assume i: "i < r"
    then have "length (rows A ! i) = c" using assms wf_row_length[of A i] by (simp add: shaped_def)
    then have "sum_list (rows A ! i) = (\<Sum>j<c. entry A i j)"
      by (simp add: sum_list_sum_nth entry_def atLeast0LessThan)
    then show "entry ?C i 0 = (\<Sum>j<c. entry A i j) / real c"
      using i assms by (simp add: entry_def shaped_def nrows_def)
  qed
  ultimately show ?thesis by blast
qed

lemma np_div_shaped:
  assumes "shaped A r c" "d \<noteq> 0"
  shows "\<exists>C. np_div A d = Inr C \<and> shaped C r c \<and>
             (\<forall>i<r. \<forall>j<c. entry C i j = entry A i j / d)"
  using assms by (simp add: np_div_def np_map_shaped np_map_entry)

lemma conforms_shaped:
  "conforms A B \<Longrightarrow> shaped A (nrows A) (ncols A) \<and> shaped B (nrows A) (ncols A)"
  by (simp add: conforms_def shaped_def same_shape_def)

section \<open>Properties of the update strategies\<close>

lemma scaled_step_layer:
  assumes "conforms w nw"
  shows "\<exists>u. np_sub (np_map (\<lambda>x. a * x) w) (np_map (\<lambda>x. eta * x) nw) = Inr u \<and>
     wf_ndarray u \<and> same_shape u w \<and>
     (\<forall>i<nrows w. \<forall>j<ncols w. entry u i j = a * entry w i j - eta * entry nw i j)"
proof -
  let ?r = "nrows w" and ?c = "ncols w"
  have sw: "shaped w ?r ?c" and sn: "shaped nw ?r ?c" using conforms_shaped[OF assms] by simp_all
  obtain u where u: "np_binop (-) (np_map (\<lambda>x. a * x) w) (np_map (\<lambda>x. eta * x) nw) = Inr u"
    "shaped u ?r ?c"
    "\<forall>i<?r. \<forall>j<?c. entry u i j = entry (np_map (\<lambda>x. a * x) w) i j - entry (np_map (\<lambda>x. eta * x) nw) i j"
    using np_binop_same[OF np_map_shaped[OF sw] np_map_shaped[OF sn]] by blast
  show ?thesis
    using u sw sn by (simp add: np_sub_def np_map_entry shaped_def same_shape_def)
qed

lemma bias_step_layer:
  assumes "conforms b nb"
  shows "\<exists>u. np_sub b (np_map (\<lambda>x. eta * x) nb) = Inr u \<and>
     wf_ndarray u \<and> same_shape u b \<and>
     (\<forall>i<nrows b. \<forall>j<ncols b. entry u i j = entry b i j - eta * entry nb i j)"
proof -
  let ?r = "nrows b" and ?c = "ncols b"
  have sw: "shaped b ?r ?c" and sn: "shaped nb ?r ?c" using conforms_shaped[OF assms] by simp_all
  obtain u where u: "np_binop (-) b (np_map (\<lambda>x. eta * x) nb) = Inr u"
    "shaped u ?r ?c"
    "\<forall>i<?r. \<forall>j<?c. entry u i j = entry b i j - entry (np_map (\<lambda>x. eta * x) nb) i j"
    using np_binop_same[OF sw np_map_shaped[OF sn]] by blast
  show ?thesis
    using u sw sn by (simp add: np_sub_def np_map_entry shaped_def same_shape_def)
qed

lemma in_set_zip_conforms:
  "list_all2 conforms xs ys \<Longrightarrow> p \<in> set (zip xs ys) \<Longrightarrow> conforms (fst p) (snd p)"
  by (auto simp add: list_all2_iff)

lemma bias_steps:
  assumes "list_all2 conforms bss nabla_b"
  shows "\<exists>bs. emap (\<lambda>(b, nb). np_sub b (np_map (\<lambda>x. eta * x) nb)) (zip bss nabla_b) = Inr bs \<and>
     list_all2 (step_of 1 eta) (zip bss nabla_b) bs"
proof (rule emap_list_all2)
  fix p assume "p \<in> set (zip bss nabla_b)"
  then have "conforms (fst p) (snd p)" using assms by (rule in_set_zip_conforms[rotated])
  from bias_step_layer[OF this, of eta]
  show "\<exists>y. (case p of (b, nb) \<Rightarrow> np_sub b (np_map (\<lambda>x. eta * x) nb)) = Inr y \<and> step_of 1 eta p y"
    by (auto simp add: step_of_def split_beta)
qed

lemma L2_weight_steps:
  assumes "n \<noteq> 0" "list_all2 conforms wts nabla_w"
  shows "\<exists>ws. emap (\<lambda>(w, nw). ebind (py_div (eta * lmbda) n) (\<lambda>d.
                    np_sub (np_map (\<lambda>x. (1 - d) * x) w) (np_map (\<lambda>x. eta * x) nw)))
              (zip wts nabla_w) = Inr ws \<and>
     list_all2 (step_of (1 - eta * lmbda / real_of_int n) eta) (zip wts nabla_w) ws"
proof (rule emap_list_all2)
  fix p assume "p \<in> set (zip wts nabla_w)"
  then have "conforms (fst p) (snd p)" using assms(2) by (rule in_set_zip_conforms[rotated])
  from scaled_step_layer[OF this, of "1 - eta * lmbda / real_of_int n" eta]
  show "\<exists>y. (case p of (w, nw) \<Rightarrow> ebind (py_div (eta * lmbda) n) (\<lambda>d.
              np_sub (np_map (\<lambda>x. (1 - d) * x) w) (np_map (\<lambda>x. eta * x) nw))) = Inr y \<and>
            step_of (1 - eta * lmbda / real_of_int n) eta p y"
    using assms(1) by (auto simp add: step_of_def split_beta py_div_def)
qed

lemma step_of_nth:
  assumes "list_all2 (step_of a eta) (zip xs ys) us" "length xs = length ys" "l < length xs"
  shows "wf_ndarray (us ! l) \<and> same_shape (us ! l) (xs ! l) \<and>
     (\<forall>i<nrows (xs ! l). \<forall>j<ncols (xs ! l).
        entry (us ! l) i j = a * entry (xs ! l) i j - eta * entry (ys ! l) i j)"
proof -
  have "step_of a eta (zip xs ys ! l) (us ! l)"
    using list_all2_nthD[OF assms(1), of l] assms(2,3) by simp
  then show ?thesis using assms by (simp add: step_of_def)
qed

lemma velocity_steps:
  assumes "list_all2 conforms vels nabla_w"
  shows "\<exists>vs. emap (\<lambda>(v, nw). np_sub (np_map (\<lambda>x. mu * x) v) (np_map (\<lambda>x. eta * x) nw))
              (zip vels nabla_w) = Inr vs \<and>
     list_all2 (step_of mu eta) (zip vels nabla_w) vs"
proof (rule emap_list_all2)
  fix p assume "p \<in> set (zip vels nabla_w)"
  then have "conforms (fst p) (snd p)" using assms by (rule in_set_zip_conforms[rotated])
  from scaled_step_layer[OF this, of mu eta]
  show "\<exists>y. (case p of (v, nw) \<Rightarrow> np_sub (np_map (\<lambda>x. mu * x) v) (np_map (\<lambda>x. eta * x) nw)) = Inr y \<and>
            step_of mu eta p y"
    by (auto simp add: step_of_def split_beta)
qed

lemma add_velocities:
  assumes "list_all2 conforms wts vs"
  shows "\<exists>ws. emap (\<lambda>(w, v). np_add w v) (zip wts vs) = Inr ws \<and>
     list_all2 sum_of (zip wts vs) ws"
proof (rule emap_list_all2)
  fix p assume "p \<in> set (zip wts vs)"
  then have c: "conforms (fst p) (snd p)" using assms by (rule in_set_zip_conforms[rotated])
  have "shaped (fst p) (nrows (fst p)) (ncols (fst p))" "shaped (snd p) (nrows (fst p)) (ncols (fst p))"
    using conforms_shaped[OF c] by simp_all
  from np_binop_same[OF this, of "(+)"]
  show "\<exists>y. (case p of (w, v) \<Rightarrow> np_add w v) = Inr y \<and> sum_of p y"
    by (auto simp add: sum_of_def split_beta np_add_def shaped_def same_shape_def)
qed

text \<open>
  Claim C6. For every learning rate \<open>eta\<close>, regularization strength \<open>lmbda\<close> and
  training-set size \<open>n\<close> (not 0: the step divides by it), and per-layer weights,
  biases and gradients of matching shapes, the L2-regularized update returns, at every
  layer, the weights \<open>(1 - eta * lmbda / n) * w - eta * nabla_w\<close> and the biases
  \<open>b - eta * nabla_b\<close>, element by element, and returns the velocities it was given.
\<close>

theorem L2_update_step_formula:
  assumes "n \<noteq> 0" "list_all2 conforms wts nabla_w" "list_all2 conforms bss nabla_b"
  shows "\<exists>ws bs.
     L2_update_step eta lmbda n wts bss nabla_w nabla_b vels mu = Inr (ws, bs, vels) \<and>
     length ws = length wts \<and> length bs = length bss \<and>
     (\<forall>l<length wts. same_shape (ws ! l) (wts ! l) \<and>
        (\<forall>i<nrows (wts ! l). \<forall>j<ncols (wts ! l).
           entry (ws ! l) i j =
             (1 - eta * lmbda / real_of_int n) * entry (wts ! l) i j - eta * entry (nabla_w ! l) i j)) \<and>
     (\<forall>l<length bss. same_shape (bs ! l) (bss ! l) \<and>
        (\<forall>i<nrows (bss ! l). \<forall>j<ncols (bss ! l).
           entry (bs ! l) i j = entry (bss ! l) i j - eta * entry (nabla_b ! l) i j))"
proof -
  have lw: "length wts = length nabla_w" and lb: "length bss = length nabla_b"
    using assms by (simp_all add: list_all2_lengthD)
  obtain ws where ws: "emap (\<lambda>(w, nw). ebind (py_div (eta * lmbda) n) (\<lambda>d.
                    np_sub (np_map (\<lambda>x. (1 - d) * x) w) (np_map (\<lambda>x. eta * x) nw)))
              (zip wts nabla_w) = Inr ws"
    and wsP: "list_all2 (step_of (1 - eta * lmbda / real_of_int n) eta) (zip wts nabla_w) ws"
    using L2_weight_steps[OF assms(1,2)] by blast
  obtain bs where bs: "emap (\<lambda>(b, nb). np_sub b (np_map (\<lambda>x. eta * x) nb)) (zip bss nabla_b) = Inr bs"
    and bsP: "list_all2 (step_of 1 eta) (zip bss nabla_b) bs"
    using bias_steps[OF assms(3)] by blast
  have run: "L2_update_step eta lmbda n wts bss nabla_w nabla_b vels mu = Inr (ws, bs, vels)"
    by (simp add: L2_update_step_def ws bs)
  have lws: "length ws = length wts" using list_all2_lengthD[OF wsP] lw by simp
  have lbs: "length bs = length bss" using list_all2_lengthD[OF bsP] lb by simp
  have W: "\<forall>l<length wts. same_shape (ws ! l) (wts ! l) \<and>
        (\<forall>i<nrows (wts ! l). \<forall>j<ncols (wts ! l).
           entry (ws ! l) i j =
             (1 - eta * lmbda / real_of_int n) * entry (wts ! l) i j - eta * entry (nabla_w ! l) i j)"
    using step_of_nth[OF wsP lw] by blast
  have B: "\<forall>l<length bss. same_shape (bs ! l) (bss ! l) \<and>
        (\<forall>i<nrows (bss ! l). \<forall>j<ncols (bss ! l).
           entry (bs ! l) i j = entry (bss ! l) i j - eta * entry (nabla_b ! l) i j)"
    using step_of_nth[OF bsP lb] by simp
  show ?thesis using run lws lbs W B by blast
qed

theorem L2_update_step_formula_witness:
  "(1::int) \<noteq> 0 \<and>
   list_all2 conforms [NDArray 1 [[2]]] [NDArray 1 [[1]]] \<and>
   list_all2 conforms [NDArray 1 [[0]]] [NDArray 1 [[1]]] \<and>
   (\<exists>ws bs. L2_update_step (1/2) 1 1 [NDArray 1 [[2]]] [NDArray 1 [[0]]]
                [NDArray 1 [[1]]] [NDArray 1 [[1]]] [np_zeros 1 1] 0 = Inr (ws, bs, [np_zeros 1 1]) \<and>
      entry (ws ! 0) 0 0 = 1 / 2 \<and> entry (bs ! 0) 0 0 = - 1 / 2)"
proof -
  have h1: "(1::int) \<noteq> 0" by simp
  have h2: "list_all2 conforms [NDArray 1 [[2]]] [NDArray 1 [[1]]]" by (simp add: conforms_def wf_ndarray_def same_shape_def nrows_def)
  have h3: "list_all2 conforms [NDArray 1 [[0]]] [NDArray 1 [[1]]]" by (simp add: conforms_def wf_ndarray_def same_shape_def nrows_def)
  from L2_update_step_formula [OF h1 h2 h3, of "1/2" 1 "[np_zeros 1 1]" 0]
  obtain ws bs where
    run: "L2_update_step (1/2) 1 1 [NDArray 1 [[2]]] [NDArray 1 [[0]]]
            [NDArray 1 [[1]]] [NDArray 1 [[1]]] [np_zeros 1 1] 0 = Inr (ws, bs, [np_zeros 1 1])"
    and W: "\<forall>l<length [NDArray 1 [[2]]]. same_shape (ws ! l) ([NDArray 1 [[2]]] ! l) \<and>
        (\<forall>i<nrows ([NDArray 1 [[2]]] ! l). \<forall>j<ncols ([NDArray 1 [[2]]] ! l).
           entry (ws ! l) i j =
             (1 - 1/2 * 1 / real_of_int 1) * entry ([NDArray 1 [[2]]] ! l) i j
               - 1/2 * entry ([NDArray 1 [[1]]] ! l) i j)"
    and B: "\<forall>l<length [NDArray 1 [[0]]]. same_shape (bs ! l) ([NDArray 1 [[0]]] ! l) \<and>
        (\<forall>i<nrows ([NDArray 1 [[0]]] ! l). \<forall>j<ncols ([NDArray 1 [[0]]] ! l).
           entry (bs ! l) i j = entry ([NDArray 1 [[0]]] ! l) i j - 1/2 * entry ([NDArray 1 [[1]]] ! l) i j)"
    by blast
  have "entry (ws ! 0) 0 0 = 1 / 2" using W by (simp add: nrows_def entry_def)
  moreover have "entry (bs ! 0) 0 0 = - 1 / 2" using B by (simp add: nrows_def entry_def)
  ultimately show ?thesis using h1 h2 h3 run by blast
qed

text \<open>
  Claim C7. On per-layer weights, velocities and gradients of matching shapes, the
  momentum update returns the velocities \<open>mu * v - eta * nabla_w\<close>, the weights
  \<open>w + v\<close> (with the new \<open>v\<close>) and the biases \<open>b - eta * nabla_b\<close>, element by
  element at every layer; with \<open>mu = 0\<close> the weights are those of plain gradient descent,
  \<open>w - eta * nabla_w\<close>.
\<close>

theorem momentum_update_step_formula:
  assumes "list_all2 conforms vels nabla_w" "list_all2 conforms wts vels"
    "list_all2 conforms bss nabla_b"
  shows "\<exists>ws bs vs.
     momentum_update_step eta lmbda n wts bss nabla_w nabla_b vels mu = Inr (ws, bs, vs) \<and>
     length ws = length wts \<and> length bs = length bss \<and> length vs = length wts \<and>
     (\<forall>l<length wts. same_shape (ws ! l) (wts ! l) \<and> same_shape (vs ! l) (wts ! l) \<and>
        (\<forall>i<nrows (wts ! l). \<forall>j<ncols (wts ! l).
           entry (vs ! l) i j = mu * entry (vels ! l) i j - eta * entry (nabla_w ! l) i j \<and>
           entry (ws ! l) i j = entry (wts ! l) i j + entry (vs ! l) i j \<and>
           (mu = 0 \<longrightarrow> entry (ws ! l) i j = entry (wts ! l) i j - eta * entry (nabla_w ! l) i j))) \<and>
     (\<forall>l<length bss. same_shape (bs ! l) (bss ! l) \<and>
        (\<forall>i<nrows (bss ! l). \<forall>j<ncols (bss ! l).
           entry (bs ! l) i j = entry (bss ! l) i j - eta * entry (nabla_b ! l) i j))"
proof -
  have lv: "length vels = length nabla_w" and lw: "length wts = length vels"
    and lb: "length bss = length nabla_b"
    using assms by (simp_all add: list_all2_lengthD)
  obtain vs where vs: "emap (\<lambda>(v, nw). np_sub (np_map (\<lambda>x. mu * x) v) (np_map (\<lambda>x. eta * x) nw))
              (zip vels nabla_w) = Inr vs"
    and vsP: "list_all2 (step_of mu eta) (zip vels nabla_w) vs"
    using velocity_steps[OF assms(1)] by blast
  have lvs: "length vs = length vels" using list_all2_lengthD[OF vsP] lv by simp
  have V: "\<And>l. l < length vels \<Longrightarrow>
      wf_ndarray (vs ! l) \<and> same_shape (vs ! l) (vels ! l) \<and>
      (\<forall>i<nrows (vels ! l). \<forall>j<ncols (vels ! l).
         entry (vs ! l) i j = mu * entry (vels ! l) i j - eta * entry (nabla_w ! l) i j)"
    using step_of_nth[OF vsP lv] by blast
  have cw: "\<And>l. l < length wts \<Longrightarrow> conforms (wts ! l) (vels ! l)"
    using assms(2) by (simp add: list_all2_conv_all_nth)
  have "list_all2 conforms wts vs"
    unfolding list_all2_conv_all_nth
  proof (intro conjI allI impI)
    show "length wts = length vs" using lvs lw by simp
  next
    fix l assume l: "l < length wts"
    then show "conforms (wts ! l) (vs ! l)"
      using cw[OF l] V[of l] lw by (simp add: conforms_def same_shape_def)
  qed
  then obtain ws where ws: "emap (\<lambda>(w, v). np_add w v) (zip wts vs) = Inr ws"
    and wsP: "list_all2 sum_of (zip wts vs) ws"
    using add_velocities by blast
  have lws: "length ws = length wts" using list_all2_lengthD[OF wsP] lw lvs by simp
  have W: "\<And>l. l < length wts \<Longrightarrow>
      same_shape (ws ! l) (wts ! l) \<and>
      (\<forall>i<nrows (wts ! l). \<forall>j<ncols (wts ! l).
         entry (ws ! l) i j = entry (wts ! l) i j + entry (vs ! l) i j)"
  proof -
    fix l assume l: "l < length wts"
    have "sum_of (zip wts vs ! l) (ws ! l)"
      using list_all2_nthD[OF wsP, of l] l lw lvs by simp
    then show "same_shape (ws ! l) (wts ! l) \<and>
      (\<forall>i<nrows (wts ! l). \<forall>j<ncols (wts ! l).
         entry (ws ! l) i j = entry (wts ! l) i j + entry (vs ! l) i j)"
      using l lw lvs by (simp add: sum_of_def)
  qed
  obtain bs where bs: "emap (\<lambda>(b, nb). np_sub b (np_map (\<lambda>x. eta * x) nb)) (zip bss nabla_b) = Inr bs"
    and bsP: "list_all2 (step_of 1 eta) (zip bss nabla_b) bs"
    using bias_steps[OF assms(3)] by blast
  have lbs: "length bs = length bss" using list_all2_lengthD[OF bsP] lb by simp
  have run: "momentum_update_step eta lmbda n wts bss nabla_w nabla_b vels mu = Inr (ws, bs, vs)"
    by (simp add: momentum_update_step_def vs ws bs)
  have WV: "\<forall>l<length wts. same_shape (ws ! l) (wts ! l) \<and> same_shape (vs ! l) (wts ! l) \<and>
        (\<forall>i<nrows (wts ! l). \<forall>j<ncols (wts ! l).
           entry (vs ! l) i j = mu * entry (vels ! l) i j - eta * entry (nabla_w ! l) i j \<and>
           entry (ws ! l) i j = entry (wts ! l) i j + entry (vs ! l) i j \<and>
           (mu = 0 \<longrightarrow> entry (ws ! l) i j = entry (wts ! l) i j - eta * entry (nabla_w ! l) i j))"
  proof (intro allI impI)
    fix l assume l: "l < length wts"
    have sh: "same_shape (wts ! l) (vels ! l)" using cw[OF l] by (simp add: conforms_def)
    have v: "same_shape (vs ! l) (vels ! l)"
      "\<forall>i<nrows (wts ! l). \<forall>j<ncols (wts ! l).
         entry (vs ! l) i j = mu * entry (vels ! l) i j - eta * entry (nabla_w ! l) i j"
      using V[of l] l lw sh by (simp_all add: same_shape_def)
    show "same_shape (ws ! l) (wts ! l) \<and> same_shape (vs ! l) (wts ! l) \<and>
        (\<forall>i<nrows (wts ! l). \<forall>j<ncols (wts ! l).
           entry (vs ! l) i j = mu * entry (vels ! l) i j - eta * entry (nabla_w ! l) i j \<and>
           entry (ws ! l) i j = entry (wts ! l) i j + entry (vs ! l) i j \<and>
           (mu = 0 \<longrightarrow> entry (ws ! l) i j = entry (wts ! l) i j - eta * entry (nabla_w ! l) i j))"
      using W[OF l] v sh by (simp add: same_shape_def)
  qed
  have B: "\<forall>l<length bss. same_shape (bs ! l) (bss ! l) \<and>
        (\<forall>i<nrows (bss ! l). \<forall>j<ncols (bss ! l).
           entry (bs ! l) i j = entry (bss ! l) i j - eta * entry (nabla_b ! l) i j)"
    using step_of_nth[OF bsP lb] by simp
  show ?thesis using run lws lbs lvs lw WV B by (intro exI[of _ ws] exI[of _ bs] exI[of _ vs]) simp
qed

theorem momentum_update_step_formula_witness:
  "list_all2 conforms [NDArray 1 [[4]]] [NDArray 1 [[1]]] \<and>
   list_all2 conforms [NDArray 1 [[2]]] [NDArray 1 [[4]]] \<and>
   list_all2 conforms [NDArray 1 [[0]]] [NDArray 1 [[1]]] \<and>
   (\<exists>ws bs vs. momentum_update_step (1/2) 0 1 [NDArray 1 [[2]]] [NDArray 1 [[0]]]
                [NDArray 1 [[1]]] [NDArray 1 [[1]]] [NDArray 1 [[4]]] 0 = Inr (ws, bs, vs) \<and>
      entry (vs ! 0) 0 0 = - 1 / 2 \<and> entry (ws ! 0) 0 0 = 3 / 2 \<and> entry (bs ! 0) 0 0 = - 1 / 2)"
proof -
  have h1: "list_all2 conforms [NDArray 1 [[4]]] [NDArray 1 [[1]]]" by (simp add: conforms_def wf_ndarray_def same_shape_def nrows_def)
  have h2: "list_all2 conforms [NDArray 1 [[2]]] [NDArray 1 [[4]]]" by (simp add: conforms_def wf_ndarray_def same_shape_def nrows_def)
  have h3: "list_all2 conforms [NDArray 1 [[0]]] [NDArray 1 [[1]]]" by (simp add: conforms_def wf_ndarray_def same_shape_def nrows_def)
  from momentum_update_step_formula [OF h1 h2 h3, of "1/2" 0 1 0]
  obtain ws bs vs where
    run: "momentum_update_step (1/2) 0 1 [NDArray 1 [[2]]] [NDArray 1 [[0]]]
            [NDArray 1 [[1]]] [NDArray 1 [[1]]] [NDArray 1 [[4]]] 0 = Inr (ws, bs, vs)"
    and W: "\<forall>l<length [NDArray 1 [[2]]]. same_shape (ws ! l) ([NDArray 1 [[2]]] ! l) \<and>
        same_shape (vs ! l) ([NDArray 1 [[2]]] ! l) \<and>
        (\<forall>i<nrows ([NDArray 1 [[2]]] ! l). \<forall>j<ncols ([NDArray 1 [[2]]] ! l).
           entry (vs ! l) i j = 0 * entry ([NDArray 1 [[4]]] ! l) i j - 1/2 * entry ([NDArray 1 [[1]]] ! l) i j \<and>
           entry (ws ! l) i j = entry ([NDArray 1 [[2]]] ! l) i j + entry (vs ! l) i j \<and>
           ((0::real) = 0 \<longrightarrow>
              entry (ws ! l) i j = entry ([NDArray 1 [[2]]] ! l) i j - 1/2 * entry ([NDArray 1 [[1]]] ! l) i j))"
    and B: "\<forall>l<length [NDArray 1 [[0]]]. same_shape (bs ! l) ([NDArray 1 [[0]]] ! l) \<and>
        (\<forall>i<nrows ([NDArray 1 [[0]]] ! l). \<forall>j<ncols ([NDArray 1 [[0]]] ! l).
           entry (bs ! l) i j = entry ([NDArray 1 [[0]]] ! l) i j - 1/2 * entry ([NDArray 1 [[1]]] ! l) i j)"
    by blast
  have "entry (vs ! 0) 0 0 = - 1 / 2" "entry (ws ! 0) 0 0 = 3 / 2"
    using W by (simp_all add: nrows_def entry_def)
  moreover have "entry (bs ! 0) 0 0 = - 1 / 2" using B by (simp add: nrows_def entry_def)
  ultimately show ?thesis using h1 h2 h3 run by blast
qed

section \<open>Properties of the cost functions\<close>

text \<open>
  Claim C8. The \<open>delta\<close> of the cross-entropy cost is \<open>A - Y\<close>, predicted minus target,
  whatever the pre-activation \<open>Z\<close> is: two pre-activations give the same result, and on
  a prediction and a target of one shape the result is their difference, element by
  element.
\<close>

theorem CrossEntropyCost_delta_formula:
  "CrossEntropyCost_delta Z A Y = np_sub A Y \<and>
   CrossEntropyCost_delta Z A Y = CrossEntropyCost_delta Z' A Y \<and>
   (conforms A Y \<longrightarrow>
     (\<exists>D. CrossEntropyCost_delta Z A Y = Inr D \<and> same_shape D A \<and>
          (\<forall>i<nrows A. \<forall>j<ncols A. entry D i j = entry A i j - entry Y i j)))"
proof (intro conjI impI)
  show "CrossEntropyCost_delta Z A Y = np_sub A Y" by (simp add: CrossEntropyCost_delta_def)
  show "CrossEntropyCost_delta Z A Y = CrossEntropyCost_delta Z' A Y"
    by (simp add: CrossEntropyCost_delta_def)
next
  assume c: "conforms A Y"
  have "shaped A (nrows A) (ncols A)" "shaped Y (nrows A) (ncols A)"
    using conforms_shaped[OF c] by simp_all
  from np_binop_same[OF this, of "(-)"]
  show "\<exists>D. CrossEntropyCost_delta Z A Y = Inr D \<and> same_shape D A \<and>
          (\<forall>i<nrows A. \<forall>j<ncols A. entry D i j = entry A i j - entry Y i j)"
    by (auto simp add: CrossEntropyCost_delta_def np_sub_def shaped_def same_shape_def)
qed

theorem CrossEntropyCost_delta_formula_witness:
  "CrossEntropyCost_delta (NDArray 1 [[7]]) (NDArray 1 [[3]]) (NDArray 1 [[1]]) =
     CrossEntropyCost_delta (NDArray 1 [[9]]) (NDArray 1 [[3]]) (NDArray 1 [[1]]) \<and>
   conforms (NDArray 1 [[3]]) (NDArray 1 [[1]]) \<and>
   (\<exists>D. CrossEntropyCost_delta (NDArray 1 [[7]]) (NDArray 1 [[3]]) (NDArray 1 [[1]]) = Inr D \<and>
        entry D 0 0 = 2)"
proof -
  have h: "conforms (NDArray 1 [[3]]) (NDArray 1 [[1]])" by (simp add: conforms_def wf_ndarray_def same_shape_def nrows_def)
  from CrossEntropyCost_delta_formula [of "NDArray 1 [[7]]" "NDArray 1 [[3]]" "NDArray 1 [[1]]" "NDArray 1 [[9]]"] h
  obtain D where ind: "CrossEntropyCost_delta (NDArray 1 [[7]]) (NDArray 1 [[3]]) (NDArray 1 [[1]]) =
     CrossEntropyCost_delta (NDArray 1 [[9]]) (NDArray 1 [[3]]) (NDArray 1 [[1]])"
    and D: "CrossEntropyCost_delta (NDArray 1 [[7]]) (NDArray 1 [[3]]) (NDArray 1 [[1]]) = Inr D"
    "\<forall>i<nrows (NDArray 1 [[3]]). \<forall>j<ncols (NDArray 1 [[3]]).
       entry D i j = entry (NDArray 1 [[3]]) i j - entry (NDArray 1 [[1]]) i j"
    by blast
  have "entry D 0 0 = 2" using D(2) by (simp add: nrows_def entry_def)
  then show ?thesis using h ind D(1) by blast
qed

section \<open>Properties of backpropagation\<close>

lemma spec_delta_step:
  assumes "l + 1 < length (weights self)"
  shows "spec_delta self X Y l i j =
     (\<Sum>k<nrows (weights self ! (l + 1)).
        entry (weights self ! (l + 1)) k i * spec_delta self X Y (l + 1) k j)
     * spec_sigmoid_prime (spec_z self X l i j)"
proof -
  let ?L = "length (weights self)"
  define d where "d = ?L - 2 - l"
  have e1: "?L - 1 - l = Suc d" and e2: "?L - 1 - (l + 1) = d"
    and i1: "?L - 1 - d = l + 1" and i2: "?L - 2 - d = l"
    using assms unfolding d_def by linarith+
  have "spec_delta self X Y l i j = spec_delta_below self X Y (Suc d) i j"
    unfolding spec_delta_def e1 ..
  also have "\<dots> = (\<Sum>k<nrows (weights self ! (?L - 1 - d)).
        entry (weights self ! (?L - 1 - d)) k i * spec_delta_below self X Y d k j)
     * spec_sigmoid_prime (spec_z self X (?L - 2 - d) i j)"
    by (rule spec_delta_below.simps(2))
  also have "\<dots> = (\<Sum>k<nrows (weights self ! (l + 1)).
        entry (weights self ! (l + 1)) k i * spec_delta self X Y (l + 1) k j)
     * spec_sigmoid_prime (spec_z self X l i j)"
    unfolding i1 i2 spec_delta_def e2 ..
  finally show ?thesis .
qed

lemma sigmoid_shaped: "shaped z r c \<Longrightarrow> shaped (sigmoid z) r c"
  by (simp add: sigmoid_def np_map_shaped)

lemma sigmoid_entry:
  "shaped z r c \<Longrightarrow> i < r \<Longrightarrow> j < c \<Longrightarrow> entry (sigmoid z) i j = spec_sigmoid (entry z i j)"
  by (simp add: sigmoid_def np_map_entry spec_sigmoid_def)

lemma sigmoid_prime_shaped:
  assumes "shaped z r c"
  shows "\<exists>sp. sigmoid_prime z = Inr sp \<and> shaped sp r c \<and>
     (\<forall>i<r. \<forall>j<c. entry sp i j = spec_sigmoid_prime (entry z i j))"
proof -
  have s: "shaped (sigmoid z) r c" using assms by (rule sigmoid_shaped)
  from np_binop_same[OF s np_map_shaped[OF s], of "(*)" "\<lambda>x. 1 - x"]
  obtain sp where sp: "np_binop (*) (sigmoid z) (np_map (\<lambda>x. 1 - x) (sigmoid z)) = Inr sp"
    "shaped sp r c"
    "\<forall>i<r. \<forall>j<c. entry sp i j = entry (sigmoid z) i j * entry (np_map (\<lambda>x. 1 - x) (sigmoid z)) i j"
    by blast
  show ?thesis
    using sp s assms
    by (simp add: sigmoid_prime_def np_mul_def np_map_entry sigmoid_entry spec_sigmoid_prime_def)
qed

lemma representsI:
  "shaped A r c \<Longrightarrow> (\<And>i j. i < r \<Longrightarrow> j < c \<Longrightarrow> entry A i j = f i j) \<Longrightarrow> represents A r c f"
  by (simp add: represents_def)

lemma represents_shaped: "represents A r c f \<Longrightarrow> shaped A r c"
  by (simp add: represents_def)

lemma represents_entry: "represents A r c f \<Longrightarrow> i < r \<Longrightarrow> j < c \<Longrightarrow> entry A i j = f i j"
  by (simp add: represents_def)

lemma represents_self: "shaped A r c \<Longrightarrow> represents A r c (entry A)"
  by (simp add: represents_def)

lemma represents_cong:
  "represents A r c f \<Longrightarrow> (\<And>i j. i < r \<Longrightarrow> j < c \<Longrightarrow> f i j = g i j) \<Longrightarrow> represents A r c g"
  by (simp add: represents_def)

lemma rep_sigmoid:
  "represents z r c f \<Longrightarrow> represents (sigmoid z) r c (\<lambda>i j. spec_sigmoid (f i j))"
  by (simp add: represents_def sigmoid_shaped sigmoid_entry[of z r c])

lemma rep_sigmoid_prime:
  assumes "represents z r c f"
  shows "\<exists>sp. sigmoid_prime z = Inr sp \<and> represents sp r c (\<lambda>i j. spec_sigmoid_prime (f i j))"
  using sigmoid_prime_shaped[OF represents_shaped[OF assms]] assms
  by (auto simp add: represents_def)

lemma rep_binop:
  assumes "represents A r c f" "represents B r c g"
  shows "\<exists>C. np_binop h A B = Inr C \<and> represents C r c (\<lambda>i j. h (f i j) (g i j))"
  using np_binop_same[OF represents_shaped[OF assms(1)] represents_shaped[OF assms(2)], of h] assms
  by (auto simp add: represents_def)

lemma rep_binop_column:
  assumes "represents A r c f" "represents b r 1 g"
  shows "\<exists>C. np_binop h A b = Inr C \<and> represents C r c (\<lambda>i j. h (f i j) (g i 0))"
  using np_binop_column[OF represents_shaped[OF assms(1)] represents_shaped[OF assms(2)], of h] assms
  by (auto simp add: represents_def)

lemma rep_dot:
  assumes "represents A r k f" "represents B k c g"
  shows "\<exists>C. np_dot A B = Inr C \<and> represents C r c (\<lambda>i j. \<Sum>l<k. f i l * g l j)"
proof -
  obtain C where C: "np_dot A B = Inr C" "shaped C r c"
    "\<forall>i<r. \<forall>j<c. entry C i j = (\<Sum>l<k. entry A i l * entry B l j)"
    using np_dot_shaped[OF represents_shaped[OF assms(1)] represents_shaped[OF assms(2)]] by blast
  have "represents C r c (\<lambda>i j. \<Sum>l<k. f i l * g l j)"
  proof (rule representsI[OF C(2)])
    fix i j assume ij: "i < r" "j < c"
    have "(\<Sum>l<k. entry A i l * entry B l j) = (\<Sum>l<k. f i l * g l j)"
      using assms ij by (intro sum.cong) (simp_all add: represents_def)
    then show "entry C i j = (\<Sum>l<k. f i l * g l j)" using C(3) ij by simp
  qed
  then show ?thesis using C(1) by blast
qed

lemma rep_transpose:
  "represents A r c f \<Longrightarrow> represents (np_transpose A) c r (\<lambda>i j. f j i)"
  by (simp add: represents_def np_transpose_shaped np_transpose_entry[of A r c])

lemma rep_mean_axis1:
  assumes "represents A r c f" "0 < c"
  shows "\<exists>C. np_mean_axis1 A = Inr C \<and> represents C r 1 (\<lambda>i j. (\<Sum>l<c. f i l) / real c)"
proof -
  obtain C where C: "np_mean_axis1 A = Inr C" "shaped C r 1"
    "\<forall>i<r. entry C i 0 = (\<Sum>j<c. entry A i j) / real c"
    using np_mean_axis1_shaped[OF represents_shaped[OF assms(1)] assms(2)] by blast
  have "represents C r 1 (\<lambda>i j. (\<Sum>l<c. f i l) / real c)"
  proof (rule representsI[OF C(2)])
    fix i j :: nat assume ij: "i < r" "j < 1"
    have "(\<Sum>l<c. entry A i l) = (\<Sum>l<c. f i l)"
      using assms ij by (intro sum.cong) (simp_all add: represents_def)
    then show "entry C i j = (\<Sum>l<c. f i l) / real c" using C(3) ij by simp
  qed
  then show ?thesis using C(1) by blast
qed

lemma rep_div:
  assumes "represents A r c f" "d \<noteq> 0"
  shows "\<exists>C. np_div A d = Inr C \<and> represents C r c (\<lambda>i j. f i j / d)"
  using np_div_shaped[OF represents_shaped[OF assms(1)] assms(2)] assms(1)
  by (auto simp add: represents_def)

lemma py_get_neg:
  "0 < k \<Longrightarrow> k \<le> length xs \<Longrightarrow> py_get xs (- int k) = Inr (xs ! (length xs - k))"
  by (simp add: py_get_def py_index_def Let_def nat_diff_distrib' of_nat_diff)

lemma py_set_neg:
  "0 < k \<Longrightarrow> k \<le> length xs \<Longrightarrow> py_set xs (- int k) v = Inr (xs[length xs - k := v])"
  by (simp add: py_set_def py_index_def Let_def nat_diff_distrib' of_nat_diff)

lemma invariant_layer:
  assumes "Network_invariant self" "l < length (weights self)"
  shows "shaped (weights self ! l) (width self (l + 1)) (width self l)"
    and "shaped (biases self ! l) (width self (l + 1)) 1"
  using assms by (simp_all add: Network_invariant_def)

lemma invariant_lengths:
  assumes "Network_invariant self"
  shows "length (biases self) = length (weights self)"
    and "0 < length (weights self)"
    and "num_layers self = int (length (weights self) + 1)"
  using assms by (auto simp add: Network_invariant_def)

lemma layer_forward:
  assumes inv: "Network_invariant self" and k: "k < length (weights self)"
    and a: "represents a (width self k) m (spec_activation self X k)"
  shows "\<exists>d z. np_dot (weights self ! k) a = Inr d \<and> np_add d (biases self ! k) = Inr z \<and>
     represents z (width self (k + 1)) m (spec_z self X k) \<and>
     represents (sigmoid z) (width self (k + 1)) m (spec_activation self X (Suc k))"
proof -
  let ?W = "weights self ! k" and ?b = "biases self ! k"
  have W: "shaped ?W (width self (k + 1)) (width self k)"
    and b: "shaped ?b (width self (k + 1)) 1"
    using invariant_layer[OF inv k] by simp_all
  obtain d where d: "np_dot ?W a = Inr d"
    "represents d (width self (k + 1)) m (\<lambda>i j. \<Sum>l<width self k. entry ?W i l * spec_activation self X k l j)"
    using rep_dot[OF represents_self[OF W] a] by blast
  obtain z where z: "np_binop (+) d ?b = Inr z"
    "represents z (width self (k + 1)) m
       (\<lambda>i j. (\<Sum>l<width self k. entry ?W i l * spec_activation self X k l j) + entry ?b i 0)"
    using rep_binop_column[OF d(2) represents_self[OF b], of "(+)"] by blast
  have nc: "ncols ?W = width self k" using W by (simp add: shaped_def)
  have z': "represents z (width self (k + 1)) m (spec_z self X k)"
    using z(2) by (rule represents_cong) (simp add: spec_z_def nc)
  have "represents (sigmoid z) (width self (k + 1)) m (\<lambda>i j. spec_sigmoid (spec_z self X k i j))"
    using z' by (rule rep_sigmoid)
  then have "represents (sigmoid z) (width self (k + 1)) m (spec_activation self X (Suc k))"
    by (rule represents_cong) (simp add: spec_z_def)
  then show ?thesis using d(1) z(1) z' by (auto simp add: np_add_def)
qed

lemma forward_ok_extend:
  assumes ok: "forward_ok self X m k acts zs"
    and z: "represents z (width self (k + 1)) m (spec_z self X k)"
    and a: "represents a (width self (k + 1)) m (spec_activation self X (Suc k))"
  shows "forward_ok self X m (Suc k) (acts @ [a]) (zs @ [z])"
  unfolding forward_ok_def
proof (intro conjI allI impI)
  show "length (acts @ [a]) = Suc k + 1" using ok by (simp add: forward_ok_def)
  show "length (zs @ [z]) = Suc k" using ok by (simp add: forward_ok_def)
next
  fix l assume l: "l \<le> Suc k"
  show "represents ((acts @ [a]) ! l) (width self l) m (spec_activation self X l)"
  proof (cases "l = Suc k")
    case True
    then show ?thesis using ok a by (simp add: forward_ok_def nth_append)
  next
    case False
    then have "l \<le> k" using l by simp
    then show ?thesis using ok by (simp add: forward_ok_def nth_append)
  qed
next
  fix l assume l: "l < Suc k"
  show "represents ((zs @ [z]) ! l) (width self (l + 1)) m (spec_z self X l)"
  proof (cases "l = k")
    case True
    then show ?thesis using ok z by (simp add: forward_ok_def nth_append)
  next
    case False
    then have "l < k" using l by simp
    then show ?thesis using ok by (simp add: forward_ok_def nth_append)
  qed
qed

lemma backprop_forward_ok:
  assumes inv: "Network_invariant self"
  shows "n = length (weights self) - k \<Longrightarrow> k \<le> length (weights self) \<Longrightarrow>
     forward_ok self X m k acts zs \<Longrightarrow>
     \<exists>acts' zs'. backprop_forward (drop k (zip (biases self) (weights self))) (acts ! k) acts zs
                   = Inr (acts', zs') \<and>
                 forward_ok self X m (length (weights self)) acts' zs'"
proof (induction n arbitrary: k acts zs)
  case 0
  then have "k = length (weights self)" by simp
  then show ?case using 0 invariant_lengths(1)[OF inv] by simp
next
  case (Suc n)
  let ?L = "length (weights self)"
  have k: "k < ?L" using Suc.prems by simp
  have lz: "length (zip (biases self) (weights self)) = ?L"
    using invariant_lengths(1)[OF inv] by simp
  have dr: "drop k (zip (biases self) (weights self)) =
      (biases self ! k, weights self ! k) # drop (Suc k) (zip (biases self) (weights self))"
    using k lz invariant_lengths(1)[OF inv] by (simp add: Cons_nth_drop_Suc[symmetric])
  have a: "represents (acts ! k) (width self k) m (spec_activation self X k)"
    using Suc.prems(3) by (simp add: forward_ok_def)
  obtain d z where dz: "np_dot (weights self ! k) (acts ! k) = Inr d"
    "np_add d (biases self ! k) = Inr z"
    "represents z (width self (k + 1)) m (spec_z self X k)"
    "represents (sigmoid z) (width self (k + 1)) m (spec_activation self X (Suc k))"
    using layer_forward[OF inv k a] by blast
  have ok': "forward_ok self X m (Suc k) (acts @ [sigmoid z]) (zs @ [z])"
    using forward_ok_extend[OF Suc.prems(3) dz(3) dz(4)] .
  have la: "length acts = k + 1" using Suc.prems(3) by (simp add: forward_ok_def)
  have nth: "(acts @ [sigmoid z]) ! Suc k = sigmoid z" using la by (simp add: nth_append)
  have "n = ?L - Suc k" "Suc k \<le> ?L" using Suc.prems k by simp_all
  from Suc.IH[OF this ok'] nth
  obtain acts' zs' where
    "backprop_forward (drop (Suc k) (zip (biases self) (weights self))) (sigmoid z)
       (acts @ [sigmoid z]) (zs @ [z]) = Inr (acts', zs')"
    "forward_ok self X m ?L acts' zs'"
    by auto
  then show ?case using dr dz(1,2) by (simp add: Let_def)
qed

lemma layer_gradients:
  assumes delta: "represents delta (width self (l + 1)) m (spec_delta self X Y l)"
    and a: "represents a (width self l) m (spec_activation self X l)"
    and m: "0 < m"
  shows "\<exists>gb d2 gw. np_mean_axis1 delta = Inr gb \<and> bias_gradient self X Y m l gb \<and>
     np_dot delta (np_transpose a) = Inr d2 \<and> np_div d2 (real m) = Inr gw \<and>
     weight_gradient self X Y m l gw"
proof -
  obtain gb where gb: "np_mean_axis1 delta = Inr gb"
    "represents gb (width self (l + 1)) 1 (\<lambda>i j. (\<Sum>s<m. spec_delta self X Y l i s) / real m)"
    using rep_mean_axis1[OF delta m] by blast
  obtain d2 where d2: "np_dot delta (np_transpose a) = Inr d2"
    "represents d2 (width self (l + 1)) (width self l)
       (\<lambda>i k. \<Sum>s<m. spec_delta self X Y l i s * spec_activation self X l k s)"
    using rep_dot[OF delta rep_transpose[OF a]] by blast
  have "real m \<noteq> 0" using m by simp
  from rep_div[OF d2(2) this]
  obtain gw where gw: "np_div d2 (real m) = Inr gw"
    "represents gw (width self (l + 1)) (width self l)
       (\<lambda>i k. (\<Sum>s<m. spec_delta self X Y l i s * spec_activation self X l k s) / real m)"
    by blast
  show ?thesis
    using gb d2(1) gw by (auto simp add: bias_gradient_def weight_gradient_def)
qed

lemma forward_ok_act:
  "forward_ok self X m k acts zs \<Longrightarrow> l \<le> k \<Longrightarrow>
   represents (acts ! l) (width self l) m (spec_activation self X l)"
  by (simp add: forward_ok_def)

lemma forward_ok_z:
  "forward_ok self X m k acts zs \<Longrightarrow> l < k \<Longrightarrow>
   represents (zs ! l) (width self (l + 1)) m (spec_z self X l)"
  by (simp add: forward_ok_def)

lemma forward_ok_lengths:
  "forward_ok self X m k acts zs \<Longrightarrow> length acts = k + 1 \<and> length zs = k"
  by (simp add: forward_ok_def)

lemma output_delta:
  assumes inv: "Network_invariant self"
    and ok: "forward_ok self X m (length (weights self)) acts zs"
    and Y: "shaped Y (width self (length (weights self))) m"
  shows "\<exists>delta. cost_delta (cost self) (zs ! (length (weights self) - 1))
                   (acts ! length (weights self)) Y = Inr delta \<and>
     represents delta (width self (length (weights self))) m
       (spec_delta self X Y (length (weights self) - 1))"
proof -
  let ?L = "length (weights self)"
  have L: "0 < ?L" using invariant_lengths(2)[OF inv] .
  have A: "represents (acts ! ?L) (width self ?L) m (spec_activation self X ?L)"
    using forward_ok_act[OF ok, of ?L] by simp
  have "?L - 1 < ?L" using L by simp
  from forward_ok_z[OF ok this]
  have Z: "represents (zs ! (?L - 1)) (width self ?L) m (spec_z self X (?L - 1))"
    using L by simp
  obtain d where d: "np_binop (-) (acts ! ?L) Y = Inr d"
    "represents d (width self ?L) m (\<lambda>i j. spec_activation self X ?L i j - entry Y i j)"
    using rep_binop[OF A represents_self[OF Y], of "(-)"] by blast
  show ?thesis
  proof (cases "cost self")
    case CrossEntropyCost
    have "spec_delta self X Y (?L - 1) = (\<lambda>i j. spec_activation self X ?L i j - entry Y i j)"
      by (rule ext, rule ext) (simp add: spec_delta_def spec_output_delta_def CrossEntropyCost)
    with d(2) have "represents d (width self ?L) m (spec_delta self X Y (?L - 1))"
      by simp
    then show ?thesis
      using d(1) CrossEntropyCost
      by (simp add: cost_delta_def CrossEntropyCost_delta_def np_sub_def)
  next
    case QuadraticCost
    obtain sp where sp: "sigmoid_prime (zs ! (?L - 1)) = Inr sp"
      "represents sp (width self ?L) m (\<lambda>i j. spec_sigmoid_prime (spec_z self X (?L - 1) i j))"
      using rep_sigmoid_prime[OF Z] by blast
    obtain e where e: "np_binop (*) d sp = Inr e"
      "represents e (width self ?L) m
         (\<lambda>i j. (spec_activation self X ?L i j - entry Y i j)
                 * spec_sigmoid_prime (spec_z self X (?L - 1) i j))"
      using rep_binop[OF d(2) sp(2), of "(*)"] by blast
    have "spec_delta self X Y (?L - 1) =
        (\<lambda>i j. (spec_activation self X ?L i j - entry Y i j)
                 * spec_sigmoid_prime (spec_z self X (?L - 1) i j))"
      by (rule ext, rule ext) (simp add: spec_delta_def spec_output_delta_def QuadraticCost)
    with e(2) have "represents e (width self ?L) m (spec_delta self X Y (?L - 1))"
      by simp
    then show ?thesis
      using d(1) sp(1) e(1) QuadraticCost
      by (simp add: cost_delta_def QuadraticCost_delta_def np_sub_def np_mul_def)
  qed
qed

lemma delta_below:
  assumes inv: "Network_invariant self"
    and ok: "forward_ok self X m (length (weights self)) acts zs"
    and c: "Suc c < length (weights self)"
    and delta: "represents delta (width self (Suc c + 1)) m (spec_delta self X Y (Suc c))"
  shows "\<exists>sp d delta'. sigmoid_prime (zs ! c) = Inr sp \<and>
     np_dot (np_transpose (weights self ! Suc c)) delta = Inr d \<and>
     np_mul d sp = Inr delta' \<and>
     represents delta' (width self (c + 1)) m (spec_delta self X Y c)"
proof -
  let ?W = "weights self ! Suc c"
  have W: "shaped ?W (width self (Suc c + 1)) (width self (Suc c))"
    using invariant_layer(1)[OF inv c] .
  have "c < length (weights self)" using c by simp
  from forward_ok_z[OF ok this]
  have Z: "represents (zs ! c) (width self (c + 1)) m (spec_z self X c)" .
  obtain sp where sp: "sigmoid_prime (zs ! c) = Inr sp"
    "represents sp (width self (c + 1)) m (\<lambda>i j. spec_sigmoid_prime (spec_z self X c i j))"
    using rep_sigmoid_prime[OF Z] by blast
  have WT: "represents (np_transpose ?W) (width self (c + 1)) (width self (Suc c + 1)) (\<lambda>i k. entry ?W k i)"
    using rep_transpose[OF represents_self[OF W]] by simp
  obtain d where d: "np_dot (np_transpose ?W) delta = Inr d"
    "represents d (width self (c + 1)) m
       (\<lambda>i j. \<Sum>k<width self (Suc c + 1). entry ?W k i * spec_delta self X Y (Suc c) k j)"
    using rep_dot[OF WT delta] by blast
  obtain delta' where delta': "np_binop (*) d sp = Inr delta'"
    "represents delta' (width self (c + 1)) m
       (\<lambda>i j. (\<Sum>k<width self (Suc c + 1). entry ?W k i * spec_delta self X Y (Suc c) k j)
               * spec_sigmoid_prime (spec_z self X c i j))"
    using rep_binop[OF d(2) sp(2), of "(*)"] by blast
  have nr: "nrows ?W = width self (Suc c + 1)" using W by (simp add: shaped_def)
  have "c + 1 < length (weights self)" using c by simp
  from spec_delta_step[OF this, of X Y]
  have "represents delta' (width self (c + 1)) m (spec_delta self X Y c)"
    using delta'(2) by (intro represents_cong[OF delta'(2)]) (simp add: nr)
  then show ?thesis using sp(1) d(1) delta'(1) by (auto simp add: np_mul_def)
qed

lemma gradients_ok_update:
  assumes "gradients_ok self X Y m (Suc c) nb nw" "c < length (weights self)"
    "bias_gradient self X Y m c gb" "weight_gradient self X Y m c gw"
  shows "gradients_ok self X Y m c (nb[c := gb]) (nw[c := gw])"
  unfolding gradients_ok_def
proof (intro conjI allI impI)
  show "length (nb[c := gb]) = length (weights self)" using assms(1) by (simp add: gradients_ok_def)
  show "length (nw[c := gw]) = length (weights self)" using assms(1) by (simp add: gradients_ok_def)
next
  fix l assume l: "c \<le> l \<and> l < length (weights self)"
  show "bias_gradient self X Y m l (nb[c := gb] ! l)"
  proof (cases "l = c")
    case True
    then show ?thesis using assms by (simp add: gradients_ok_def)
  next
    case False
    then have "Suc c \<le> l" using l by simp
    then show ?thesis using assms(1) l False by (simp add: gradients_ok_def)
  qed
  show "weight_gradient self X Y m l (nw[c := gw] ! l)"
  proof (cases "l = c")
    case True
    then show ?thesis using assms by (simp add: gradients_ok_def)
  next
    case False
    then have "Suc c \<le> l" using l by simp
    then show ?thesis using assms(1) l False by (simp add: gradients_ok_def)
  qed
qed

lemma backprop_backward_ok:
  assumes inv: "Network_invariant self"
    and ok: "forward_ok self X m (length (weights self)) acts zs"
    and m: "0 < m"
  shows "c < length (weights self) \<Longrightarrow>
     represents delta (width self (c + 1)) m (spec_delta self X Y c) \<Longrightarrow>
     gradients_ok self X Y m c nb nw \<Longrightarrow>
     \<exists>nb' nw'. backprop_backward (weights self) zs acts m
                  (map int [length (weights self) + 1 - c ..< length (weights self) + 1])
                  delta nb nw = Inr (nb', nw') \<and>
                gradients_ok self X Y m 0 nb' nw'"
proof (induction c arbitrary: delta nb nw)
  case 0
  then show ?case by simp
next
  case (Suc c)
  let ?L = "length (weights self)"
  let ?l = "?L - c"
  have c: "Suc c < ?L" using Suc.prems(1) .
  have lens: "length acts = ?L + 1" "length zs = ?L"
    using forward_ok_lengths[OF ok] by simp_all
  have lg: "length nb = ?L" "length nw = ?L" using Suc.prems(3) by (simp_all add: gradients_ok_def)
  have list: "map int [?L + 1 - Suc c ..< ?L + 1] = int ?l # map int [?L + 1 - c ..< ?L + 1]"
  proof -
    have "[?L + 1 - Suc c ..< ?L + 1] = [?l ..< ?L + 1]" by simp
    also have "\<dots> = ?l # [Suc ?l ..< ?L + 1]" by (rule upt_conv_Cons) simp
    also have "Suc ?l = ?L + 1 - c" using c by simp
    finally show ?thesis by simp
  qed
  have g1: "py_get zs (- int ?l) = Inr (zs ! c)"
    using py_get_neg[of ?l zs] c lens by simp
  have i2: "- int ?l + 1 = - int (?l - 1)" using c by simp
  have g2: "py_get (weights self) (- int ?l + 1) = Inr (weights self ! Suc c)"
    unfolding i2 using py_get_neg[of "?l - 1" "weights self"] c by simp
  have i3: "- int ?l - 1 = - int (?l + 1)" by simp
  have g3: "py_get acts (- int ?l - 1) = Inr (acts ! c)"
    unfolding i3 using py_get_neg[of "?l + 1" acts] c lens by simp
  obtain sp d delta' where bel: "sigmoid_prime (zs ! c) = Inr sp"
    "np_dot (np_transpose (weights self ! Suc c)) delta = Inr d"
    "np_mul d sp = Inr delta'"
    "represents delta' (width self (c + 1)) m (spec_delta self X Y c)"
    using delta_below[OF inv ok c Suc.prems(2)] by blast
  have "c \<le> ?L" using c by simp
  from forward_ok_act[OF ok this]
  have a: "represents (acts ! c) (width self c) m (spec_activation self X c)" .
  obtain gb d2 gw where gr: "np_mean_axis1 delta' = Inr gb" "bias_gradient self X Y m c gb"
    "np_dot delta' (np_transpose (acts ! c)) = Inr d2" "np_div d2 (real m) = Inr gw"
    "weight_gradient self X Y m c gw"
    using layer_gradients[OF bel(4) a m] by blast
  have s1: "py_set nb (- int ?l) gb = Inr (nb[c := gb])"
    using py_set_neg[of ?l nb gb] c lg by simp
  have s2: "py_set nw (- int ?l) gw = Inr (nw[c := gw])"
    using py_set_neg[of ?l nw gw] c lg by simp
  have c': "c < ?L" using c by simp
  have ok': "gradients_ok self X Y m c (nb[c := gb]) (nw[c := gw])"
    using gradients_ok_update[OF Suc.prems(3) c' gr(2) gr(5)] .
  from Suc.IH[OF c' bel(4) ok']
  obtain nb' nw' where res: "backprop_backward (weights self) zs acts m
       (map int [?L + 1 - c ..< ?L + 1]) delta' (nb[c := gb]) (nw[c := gw]) = Inr (nb', nw')"
    "gradients_ok self X Y m 0 nb' nw'"
    by blast
  have "backprop_backward (weights self) zs acts m (map int [?L + 1 - Suc c ..< ?L + 1]) delta nb nw
      = Inr (nb', nw')"
    unfolding list
    by (simp only: backprop_backward.simps g1 g2 g3 bel gr s1 s2 res ebind_Inr)
  then show ?case using res(2) by blast
qed

lemma backprop_gradients_ok:
  assumes inv: "Network_invariant self"
    and X: "shaped X (width self 0) m"
    and Y: "shaped Y (width self (length (weights self))) m"
    and m: "0 < m"
  shows "\<exists>nabla_b nabla_w. backprop self X Y = Inr (nabla_b, nabla_w) \<and>
     gradients_ok self X Y m 0 nabla_b nabla_w"
proof -
  let ?L = "length (weights self)"
  let ?nb = "map (\<lambda>b. np_zeros (nrows b) (ncols b)) (biases self)"
  let ?nw = "map (\<lambda>w. np_zeros (nrows w) (ncols w)) (weights self)"
  have L: "0 < ?L" and lb: "length (biases self) = ?L"
    and nl: "num_layers self = int (?L + 1)"
    using invariant_lengths[OF inv] by simp_all
  have mX: "ncols X = m" using X by (simp add: shaped_def)
  have ok0: "forward_ok self X m 0 [X] []"
    using X by (simp add: forward_ok_def represents_def)
  from backprop_forward_ok[OF inv _ _ ok0, of ?L]
  obtain acts zs where fw: "backprop_forward (zip (biases self) (weights self)) X [X] [] = Inr (acts, zs)"
    and ok: "forward_ok self X m ?L acts zs"
    by auto
  have lens: "length acts = ?L + 1" "length zs = ?L"
    using forward_ok_lengths[OF ok] by simp_all
  have g1: "py_get zs (- 1) = Inr (zs ! (?L - 1))"
    using py_get_neg[of 1 zs] L lens by simp
  have g2: "py_get acts (- 1) = Inr (acts ! ?L)"
    using py_get_neg[of 1 acts] lens by simp
  have g3: "py_get acts (- 2) = Inr (acts ! (?L - 1))"
    using py_get_neg[of 2 acts] L lens by simp
  obtain delta where de: "cost_delta (cost self) (zs ! (?L - 1)) (acts ! ?L) Y = Inr delta"
    "represents delta (width self ?L) m (spec_delta self X Y (?L - 1))"
    using output_delta[OF inv ok Y] by blast
  have de': "represents delta (width self (?L - 1 + 1)) m (spec_delta self X Y (?L - 1))"
    using de(2) L by simp
  have "?L - 1 \<le> ?L" by simp
  from forward_ok_act[OF ok this]
  have a: "represents (acts ! (?L - 1)) (width self (?L - 1)) m (spec_activation self X (?L - 1))" .
  obtain gb d2 gw where gr: "np_mean_axis1 delta = Inr gb" "bias_gradient self X Y m (?L - 1) gb"
    "np_dot delta (np_transpose (acts ! (?L - 1))) = Inr d2" "np_div d2 (real m) = Inr gw"
    "weight_gradient self X Y m (?L - 1) gw"
    using layer_gradients[OF de' a m] by blast
  have s1: "py_set ?nb (- 1) gb = Inr (?nb[?L - 1 := gb])"
    using py_set_neg[of 1 ?nb gb] L lb by simp
  have s2: "py_set ?nw (- 1) gw = Inr (?nw[?L - 1 := gw])"
    using py_set_neg[of 1 ?nw gw] L by simp
  have top: "gradients_ok self X Y m (?L - 1) (?nb[?L - 1 := gb]) (?nw[?L - 1 := gw])"
    unfolding gradients_ok_def
  proof (intro conjI allI impI)
    show "length (?nb[?L - 1 := gb]) = ?L" using lb by simp
    show "length (?nw[?L - 1 := gw]) = ?L" by simp
  next
    fix l assume "?L - 1 \<le> l \<and> l < ?L"
    then have l: "l = ?L - 1" by linarith
    show "bias_gradient self X Y m l (?nb[?L - 1 := gb] ! l)"
      unfolding l using gr(2) L lb by simp
    show "weight_gradient self X Y m l (?nw[?L - 1 := gw] ! l)"
      unfolding l using gr(5) L by simp
  qed
  have cL: "?L - 1 < ?L" using L by simp
  from backprop_backward_ok[OF inv ok m cL de' top]
  obtain nb' nw' where res: "backprop_backward (weights self) zs acts m
       (map int [?L + 1 - (?L - 1) ..< ?L + 1]) delta (?nb[?L - 1 := gb]) (?nw[?L - 1 := gw])
       = Inr (nb', nw')"
    "gradients_ok self X Y m 0 nb' nw'"
    by blast
  have rng: "[2..<nat (num_layers self)] = [?L + 1 - (?L - 1) ..< ?L + 1]"
  proof -
    have "?L + 1 - (?L - 1) = 2" using L by linarith
    moreover have "nat (num_layers self) = ?L + 1" using nl by simp
    ultimately show ?thesis by simp
  qed
  have "backprop self X Y = Inr (nb', nw')"
    unfolding backprop_def Let_def
    by (simp only: fw ebind_Inr prod.case g1 g2 g3 de(1) gr s1 s2 mX rng res(1))
  then show ?thesis using res(2) by blast
qed

lemma example_net_invariant: "Network_invariant (example_net r p)"
  by (simp add: Network_invariant_def example_net_def width_def shaped_def nrows_def wf_ndarray_def)

text \<open>
  Claim C1. For every network that satisfies the invariant of the data model, and every
  non-empty batch of \<open>m\<close> inputs and labels stacked column-wise (\<open>X\<close> with one row per
  input neuron, \<open>Y\<close> with one row per output neuron), \<^verbatim>\<open>backprop\<close> returns one bias
  gradient and one weight gradient per layer; at every layer the bias gradient is the
  mean over the \<open>m\<close> samples of the error signal, and the weight gradient is the error
  signal times the transposed activations of the previous layer, divided by \<open>m\<close>.
\<close>

theorem backprop_batch_mean:
  assumes "Network_invariant self"
    and "shaped X (width self 0) m"
    and "shaped Y (width self (length (weights self))) m"
    and "0 < m"
  shows "\<exists>nabla_b nabla_w. backprop self X Y = Inr (nabla_b, nabla_w) \<and>
     length nabla_b = length (weights self) \<and> length nabla_w = length (weights self) \<and>
     (\<forall>l<length (weights self).
        shaped (nabla_b ! l) (width self (l + 1)) 1 \<and>
        shaped (nabla_w ! l) (width self (l + 1)) (width self l) \<and>
        (\<forall>i<width self (l + 1).
           entry (nabla_b ! l) i 0 = (\<Sum>s<m. spec_delta self X Y l i s) / real m \<and>
           (\<forall>k<width self l.
              entry (nabla_w ! l) i k =
                (\<Sum>s<m. spec_delta self X Y l i s * spec_activation self X l k s) / real m)))"
proof -
  obtain nabla_b nabla_w where run: "backprop self X Y = Inr (nabla_b, nabla_w)"
    and ok: "gradients_ok self X Y m 0 nabla_b nabla_w"
    using backprop_gradients_ok[OF assms] by blast
  have len: "length nabla_b = length (weights self)" "length nabla_w = length (weights self)"
    using ok by (simp_all add: gradients_ok_def)
  have "\<forall>l<length (weights self).
        shaped (nabla_b ! l) (width self (l + 1)) 1 \<and>
        shaped (nabla_w ! l) (width self (l + 1)) (width self l) \<and>
        (\<forall>i<width self (l + 1).
           entry (nabla_b ! l) i 0 = (\<Sum>s<m. spec_delta self X Y l i s) / real m \<and>
           (\<forall>k<width self l.
              entry (nabla_w ! l) i k =
                (\<Sum>s<m. spec_delta self X Y l i s * spec_activation self X l k s) / real m))"
  proof (intro allI impI)
    fix l assume l: "l < length (weights self)"
    have b: "represents (nabla_b ! l) (width self (l + 1)) 1
        (\<lambda>i j. (\<Sum>s<m. spec_delta self X Y l i s) / real m)"
      and w: "represents (nabla_w ! l) (width self (l + 1)) (width self l)
        (\<lambda>i k. (\<Sum>s<m. spec_delta self X Y l i s * spec_activation self X l k s) / real m)"
      using ok l by (simp_all add: gradients_ok_def bias_gradient_def weight_gradient_def)
    show "shaped (nabla_b ! l) (width self (l + 1)) 1 \<and>
        shaped (nabla_w ! l) (width self (l + 1)) (width self l) \<and>
        (\<forall>i<width self (l + 1).
           entry (nabla_b ! l) i 0 = (\<Sum>s<m. spec_delta self X Y l i s) / real m \<and>
           (\<forall>k<width self l.
              entry (nabla_w ! l) i k =
                (\<Sum>s<m. spec_delta self X Y l i s * spec_activation self X l k s) / real m))"
      using represents_shaped[OF b] represents_shaped[OF w]
        represents_entry[OF b, of _ 0] represents_entry[OF w]
      by simp
  qed
  then show ?thesis using run len by blast
qed

theorem backprop_batch_mean_witness:
  "Network_invariant (example_net L2_regularization 10) \<and>
   shaped (NDArray 2 [[1, 3]]) (width (example_net L2_regularization 10) 0) 2 \<and>
   shaped (NDArray 2 [[1, 1]])
     (width (example_net L2_regularization 10) (length (weights (example_net L2_regularization 10)))) 2 \<and>
   (0::nat) < 2 \<and>
   (\<exists>nabla_b nabla_w.
      backprop (example_net L2_regularization 10) (NDArray 2 [[1, 3]]) (NDArray 2 [[1, 1]])
        = Inr (nabla_b, nabla_w) \<and>
      entry (nabla_b ! 0) 0 0 = - 1 / 2 \<and> entry (nabla_w ! 0) 0 0 = - 1)"
proof -
  let ?net = "example_net L2_regularization 10"
  let ?X = "NDArray 2 [[1, 3]]" and ?Y = "NDArray 2 [[1, 1]]"
  have h1: "Network_invariant ?net" by (rule example_net_invariant)
  have h2: "shaped ?X (width ?net 0) 2"
    by (simp add: example_net_def width_def shaped_def nrows_def wf_ndarray_def)
  have h3: "shaped ?Y (width ?net (length (weights ?net))) 2"
    by (simp add: example_net_def width_def shaped_def nrows_def wf_ndarray_def)
  have h4: "(0::nat) < 2" by simp
  have w1: "width ?net 1 = 1" "width ?net 0 = 1" "length (weights ?net) = 1"
    by (simp_all add: example_net_def width_def)
  have act: "\<And>s. spec_activation ?net ?X 1 0 s = 1 / 2"
    by (simp add: example_net_def spec_sigmoid_def entry_def)
  have de: "\<And>s. s < 2 \<Longrightarrow> spec_delta ?net ?X ?Y 0 0 s = - 1 / 2"
  proof -
    fix s :: nat assume s: "s < 2"
    have y: "entry ?Y 0 s = 1" using s by (cases s) (simp_all add: entry_def less_Suc_eq numeral_2_eq_2)
    have c: "cost ?net = CrossEntropyCost" by (simp add: example_net_def)
    show "spec_delta ?net ?X ?Y 0 0 s = - 1 / 2"
      using act[of s] y by (simp add: spec_delta_def w1 spec_output_delta_def c)
  qed
  from backprop_batch_mean [OF h1 h2 h3 h4]
  obtain nabla_b nabla_w where run: "backprop ?net ?X ?Y = Inr (nabla_b, nabla_w)"
    and G: "\<forall>l<length (weights ?net).
        shaped (nabla_b ! l) (width ?net (l + 1)) 1 \<and>
        shaped (nabla_w ! l) (width ?net (l + 1)) (width ?net l) \<and>
        (\<forall>i<width ?net (l + 1).
           entry (nabla_b ! l) i 0 = (\<Sum>s<2. spec_delta ?net ?X ?Y l i s) / real 2 \<and>
           (\<forall>k<width ?net l.
              entry (nabla_w ! l) i k =
                (\<Sum>s<2. spec_delta ?net ?X ?Y l i s * spec_activation ?net ?X l k s) / real 2))"
    by blast
  have s2: "\<And>f :: nat \<Rightarrow> real. (\<Sum>s<2. f s) = f 0 + f 1"
    by (simp add: numeral_2_eq_2)
  have b: "entry (nabla_b ! 0) 0 0 = (\<Sum>s<2. spec_delta ?net ?X ?Y 0 0 s) / real 2"
    and w: "entry (nabla_w ! 0) 0 0 =
        (\<Sum>s<2. spec_delta ?net ?X ?Y 0 0 s * spec_activation ?net ?X 0 0 s) / real 2"
    using G w1 by simp_all
  have "entry (nabla_b ! 0) 0 0 = - 1 / 2" using b de by (simp add: s2)
  moreover have "entry (nabla_w ! 0) 0 0 = - 1" using w de by (simp add: s2 entry_def)
  ultimately show ?thesis using h1 h2 h3 h4 run by blast
qed

section \<open>Properties of the epoch loop\<close>

lemma epoch_scores_append: "epoch_scores (xs @ ys) = epoch_scores xs @ epoch_scores ys"
  by (induction xs rule: epoch_scores.induct) simp_all

lemma evaluate_empty: "evaluate self (Some []) = Inr 0"
  by (simp add: evaluate_def)

lemma evaluate_None: "evaluate self None = Inl TypeError"
  by (simp add: evaluate_def)

lemma update_mini_batch_learning_rate:
  "update_mini_batch self mb eta lmbda n mu = Inr self' \<Longrightarrow>
   learning_rate self' = learning_rate self"
  by (auto simp add: update_mini_batch_def ebind_eq_Inr split_beta)

lemma update_mini_batches_learning_rate:
  "update_mini_batches self mbs eta lmbda n mu = Inr self' \<Longrightarrow>
   learning_rate self' = learning_rate self"
proof (induction mbs arbitrary: self)
  case Nil
  then show ?case by simp
next
  case (Cons mb mbs)
  then obtain s1 where s1: "update_mini_batch self mb eta lmbda n mu = Inr s1"
    "update_mini_batches s1 mbs eta lmbda n mu = Inr self'"
    by (auto simp add: ebind_eq_Inr)
  show ?case using Cons.IH[OF s1(2)] update_mini_batch_learning_rate[OF s1(1)] by simp
qed

lemma SGD_epoch_step:
  assumes "SGD_epoch shuffle n mbs lmbda mu test_data j (self, td, eta, out)
             = Inr (stop, (self', td', eta', out'))"
  shows "\<exists>c. learning_rate self' = snd (should_halve (learning_rate self) c) \<and>
     eta' = (if fst (should_halve (learning_rate self) c) then eta / 2 else eta) \<and>
     stop = (7 \<le> num_halves (learning_rate self')) \<and>
     epoch_scores out' = epoch_scores out @ [c]"
proof -
  from assms obtain ks self1 c where
    ks: "py_range_step n mbs = Inr ks"
    and up: "update_mini_batches self
               (map (\<lambda>k. take (nat mbs) (drop k (shuffle j td))) ks) eta lmbda (int n) mu = Inr self1"
    and ev: "evaluate self1 test_data = Inr c"
    and res: "(let out = out @ [if truthy test_data
                                 then EpochScore j c (length (the test_data))
                                 else EpochComplete j];
                    (halve, lr) = should_halve (learning_rate self1) c;
                    self = self1\<lparr>learning_rate := lr\<rparr>;
                    eta = (if halve then eta / 2 else eta);
                    out = (if halve then out @ [LearningHalved eta] else out);
                    num_halves = get_num_halves (learning_rate self);
                    out = out @ [NumHalves num_halves]
                in Inr (num_halves \<ge> 7, (self, shuffle j td, eta, out)))
            = (Inr (stop, (self', td', eta', out')) :: error + (bool \<times> sgd_state))"
    by (auto simp add: SGD_epoch_def ebind_eq_Inr Let_def)
  have lr: "learning_rate self1 = learning_rate self"
    using update_mini_batches_learning_rate[OF up] .
  have c0: "\<not> truthy test_data \<Longrightarrow> c = 0"
    using ev by (cases test_data) (auto simp add: truthy_def evaluate_def)
  show ?thesis
  proof (cases "truthy test_data")
    case True
    then show ?thesis
      using res lr
      by (intro exI[of _ c])
         (auto simp add: Let_def split_beta get_num_halves_def epoch_scores_append)
  next
    case False
    then show ?thesis
      using res lr c0[OF False]
      by (intro exI[of _ c])
         (auto simp add: Let_def split_beta get_num_halves_def epoch_scores_append)
  qed
qed

lemma SGD_loop_schedule:
  "SGD_loop shuffle n mbs lmbda mu test_data js (self, td, eta, out) = Inr (self', td', eta', out') \<Longrightarrow>
   \<exists>cs. epoch_scores out' = epoch_scores out @ cs \<and>
        schedule_followed (learning_rate self) eta (length js) cs (learning_rate self') eta'"
proof (induction js arbitrary: self td eta out)
  case Nil
  then show ?case by (simp add: schedule_followed_def)
next
  case (Cons j js)
  from Cons.prems obtain stop self1 td1 eta1 out1 where
    ep: "SGD_epoch shuffle n mbs lmbda mu test_data j (self, td, eta, out)
           = Inr (stop, (self1, td1, eta1, out1))"
    and rest: "(if stop then Inr (self1, td1, eta1, out1)
                else SGD_loop shuffle n mbs lmbda mu test_data js (self1, td1, eta1, out1))
               = Inr (self', td', eta', out')"
    by (auto simp add: ebind_eq_Inr)
  obtain c where c: "learning_rate self1 = snd (should_halve (learning_rate self) c)"
    "eta1 = (if fst (should_halve (learning_rate self) c) then eta / 2 else eta)"
    "stop = (7 \<le> num_halves (learning_rate self1))"
    "epoch_scores out1 = epoch_scores out @ [c]"
    using SGD_epoch_step[OF ep] by blast
  show ?case
  proof (cases stop)
    case True
    then have eq: "self' = self1" "eta' = eta1" "out' = out1" using rest by simp_all
    have "schedule_followed (learning_rate self) eta (length (j # js)) [c] (learning_rate self') eta'"
      using c True by (simp add: schedule_followed_def eq split_beta)
    then show ?thesis using c(4) eq by blast
  next
    case False
    then have "SGD_loop shuffle n mbs lmbda mu test_data js (self1, td1, eta1, out1)
        = Inr (self', td', eta', out')"
      using rest by simp
    from Cons.IH[OF this] obtain cs where
      cs: "epoch_scores out' = epoch_scores out1 @ cs"
      "schedule_followed (learning_rate self1) eta1 (length js) cs (learning_rate self') eta'"
      by blast
    let ?lr = "learning_rate self"
    have run: "halve_run ?lr (c # cs) =
        (fst (should_halve ?lr c) # fst (halve_run (learning_rate self1) cs),
         snd (halve_run (learning_rate self1) cs))"
      by (simp add: split_beta c(1))
    have pre: "\<forall>k. 0 < k \<and> k < length (c # cs) \<longrightarrow>
        num_halves (snd (halve_run ?lr (take k (c # cs)))) < 7"
    proof (intro allI impI)
      fix k assume k: "0 < k \<and> k < length (c # cs)"
      then obtain k' where k': "k = Suc k'" by (cases k) auto
      show "num_halves (snd (halve_run ?lr (take k (c # cs)))) < 7"
      proof (cases "k' = 0")
        case True
        then show ?thesis using False c(1,3) k' by (simp add: split_beta)
      next
        case nz: False
        then have "0 < k' \<and> k' < length cs" using k k' by simp
        then have "num_halves (snd (halve_run (learning_rate self1) (take k' cs))) < 7"
          using cs(2) by (simp add: schedule_followed_def)
        then show ?thesis using k' by (simp add: split_beta c(1))
      qed
    qed
    have f1: "length cs \<le> length js"
      and f2: "learning_rate self' = snd (halve_run (learning_rate self1) cs)"
      and f3: "eta' = eta1 / 2 ^ count_list (fst (halve_run (learning_rate self1) cs)) True"
      and f4: "length cs < length js \<longrightarrow> 7 \<le> num_halves (learning_rate self')"
      using cs(2) unfolding schedule_followed_def by blast+
    have "schedule_followed ?lr eta (length (j # js)) (c # cs) (learning_rate self') eta'"
      unfolding schedule_followed_def
    proof (intro conjI)
      show "length (c # cs) \<le> length (j # js)" using f1 by simp
      show "learning_rate self' = snd (halve_run ?lr (c # cs))"
        unfolding run using f2 by simp
      show "eta' = eta / 2 ^ count_list (fst (halve_run ?lr (c # cs))) True"
        unfolding run using f3 c(2) by simp
      show "length (c # cs) < length (j # js) \<longrightarrow> 7 \<le> num_halves (learning_rate self')"
        using f4 by simp
      show "\<forall>k. 0 < k \<and> k < length (c # cs) \<longrightarrow>
        num_halves (snd (halve_run ?lr (take k (c # cs)))) < 7"
        using pre .
    qed
    then show ?thesis using cs(1) c(4) by (intro exI[of _ "c # cs"]) simp
  qed
qed

subsection \<open>The example run\<close>

lemmas eval_defs = example_net_def Let_def np_dot_def np_add_def np_binop_def bshape_def
      nrows_def bget_def sigmoid_def np_map_def py_get_def py_set_def py_index_def cost_delta_def
      CrossEntropyCost_delta_def np_sub_def np_mean_axis1_def np_transpose_def np_div_def np_zeros_def
      np_column_stack_def update_mini_batch_def reg_update_step_def L2_update_step_def py_div_def
      backprop_def evaluate_def feedforward_def np_argmax_def SGD_epoch_def py_range_step_def
      truthy_def should_halve_def get_num_halves_def LearningRate_init_def

lemma example_update:
  "update_mini_batch ((example_net L2_regularization p)\<lparr>learning_rate := lr\<rparr>)
     example_training eta 0 1 mu
   = Inr ((example_net L2_regularization p)\<lparr>learning_rate := lr\<rparr>)"
  by (simp add: eval_defs example_training_def)

lemma example_evaluate:
  "evaluate ((example_net L2_regularization p)\<lparr>learning_rate := lr\<rparr>) example_test = Inr 0"
  by (simp add: eval_defs example_test_def)

lemma example_epoch:
  assumes "patience lr = 1" "best_accuracy lr = 0" "counter lr = 0"
  shows "SGD_epoch (\<lambda>j xs. xs) 1 1 0 mu example_test j
     ((example_net L2_regularization p)\<lparr>learning_rate := lr\<rparr>, example_training, eta, out)
   = Inr (7 \<le> num_halves lr + 1,
          (example_net L2_regularization p)
             \<lparr>learning_rate := lr\<lparr>accuracies := accuracies lr @ [0], counter := 0,
                                   num_halves := num_halves lr + 1\<rparr>\<rparr>,
          example_training, eta / 2,
          out @ [EpochScore j 0 1, LearningHalved (eta / 2), NumHalves (num_halves lr + 1)])"
proof -
  let ?net = "(example_net L2_regularization p)\<lparr>learning_rate := lr\<rparr>"
  let ?lr' = "lr\<lparr>accuracies := accuracies lr @ [0], counter := 0, num_halves := num_halves lr + 1\<rparr>"
  have r: "py_range_step 1 1 = Inr [0]" by (simp add: py_range_step_def)
  have b: "map (\<lambda>k. take (nat 1) (drop k example_training)) [0] = [example_training]"
    by (simp add: example_training_def)
  have u: "update_mini_batches ?net [example_training] eta 0 (int 1) mu = Inr ?net"
    by (simp add: example_update)
  have e: "evaluate ?net example_test = Inr 0" by (rule example_evaluate)
  have t: "truthy example_test" "length (the example_test) = 1"
    by (simp_all add: example_test_def truthy_def)
  have h: "should_halve (learning_rate ?net) 0 = (True, ?lr')"
    using assms by (simp add: should_halve_def Let_def)
  have n: "?net\<lparr>learning_rate := ?lr'\<rparr> = (example_net L2_regularization p)\<lparr>learning_rate := ?lr'\<rparr>"
    by simp
  show ?thesis
    by (simp only: SGD_epoch_def prod.case Let_def r ebind_Inr b u e t if_True h n
          get_num_halves_def append.simps append_assoc) simp
qed

lemma upt_10: "[0..<nat 10] = [0, 1, 2, 3, 4, 5, 6, 7, 8, 9]"
  by (simp add: upt_rec)

lemma example_run:
  "SGD (\<lambda>j xs. xs) (example_net L2_regularization 1) example_training 10 1 1 0 (1 / 2) example_test
   = Inr (example_trained, 1 / 128, example_events)"
proof -
  have start: "example_net L2_regularization 1
      = (example_net L2_regularization 1)\<lparr>learning_rate := LearningRate_init 1\<rparr>"
    by (simp add: example_net_def)
  have len: "length example_training = 1" by (simp add: example_training_def)
  show ?thesis
    unfolding SGD_def upt_10 len example_trained_def example_events_def
    by (subst start) (simp add: example_epoch LearningRate_init_def del: One_nat_def)
qed

lemma example_events_scores: "epoch_scores example_events = [0, 0, 0, 0, 0, 0, 0]"
  by (simp add: example_events_def)

text \<open>
  Claim C5. In every SGD run that returns, the accuracy of each epoch was fed to the
  LearningRate tracker, one call per epoch and in order (the tracker the run leaves is
  the tracker it started from after these calls); the final learning rate is the
  initial one divided by 2 once for every halve the tracker signalled; the run stops
  before its last epoch only when the number of halvings has reached 7, and never
  goes on after an epoch that leaves 7 halvings or more, however many epochs remain.
\<close>

theorem SGD_follows_schedule:
  "SGD shuffle self training_data epochs mini_batch_size eta lmbda mu test_data
     = Inr (self', eta', out) \<Longrightarrow>
   length (epoch_scores out) \<le> nat epochs \<and>
   learning_rate self' = snd (halve_run (learning_rate self) (epoch_scores out)) \<and>
   eta' = eta / 2 ^ count_list (fst (halve_run (learning_rate self) (epoch_scores out))) True \<and>
   (length (epoch_scores out) < nat epochs \<longrightarrow> 7 \<le> num_halves (learning_rate self')) \<and>
   (\<forall>k. 0 < k \<and> k < length (epoch_scores out) \<longrightarrow>
        num_halves (snd (halve_run (learning_rate self) (take k (epoch_scores out)))) < 7)"
proof -
  assume "SGD shuffle self training_data epochs mini_batch_size eta lmbda mu test_data
     = Inr (self', eta', out)"
  then obtain td' where "SGD_loop shuffle (length training_data) mini_batch_size lmbda mu test_data
      [0..<nat epochs] (self, training_data, eta, []) = Inr (self', td', eta', out)"
    by (auto simp add: SGD_def ebind_eq_Inr)
  from SGD_loop_schedule[OF this]
  have "schedule_followed (learning_rate self) eta (nat epochs) (epoch_scores out)
          (learning_rate self') eta'"
    by simp
  then show ?thesis unfolding schedule_followed_def .
qed

theorem SGD_follows_schedule_witness:
  "SGD (\<lambda>j xs. xs) (example_net L2_regularization 1) example_training 10 1 1 0 (1 / 2) example_test
     = Inr (example_trained, 1 / 128, example_events) \<and>
   epoch_scores example_events = [0, 0, 0, 0, 0, 0, 0] \<and>
   length (epoch_scores example_events) < nat 10 \<and>
   7 \<le> num_halves (learning_rate example_trained) \<and>
   learning_rate example_trained =
     snd (halve_run (learning_rate (example_net L2_regularization 1)) (epoch_scores example_events)) \<and>
   (1 / 128 :: real) = 1 / 2 ^ count_list
     (fst (halve_run (learning_rate (example_net L2_regularization 1)) (epoch_scores example_events))) True"
proof -
  note hs = SGD_follows_schedule [OF example_run]
  have a: "learning_rate example_trained =
     snd (halve_run (learning_rate (example_net L2_regularization 1)) (epoch_scores example_events))"
    using hs by (rule conjunct1[OF conjunct2])
  have b: "(1 / 128 :: real) = 1 / 2 ^ count_list
     (fst (halve_run (learning_rate (example_net L2_regularization 1)) (epoch_scores example_events))) True"
    using hs by (rule conjunct1[OF conjunct2[OF conjunct2]])
  have c: "length (epoch_scores example_events) < nat 10"
    by (simp add: example_events_scores)
  have d: "7 \<le> num_halves (learning_rate example_trained)"
    using conjunct1[OF conjunct2[OF conjunct2[OF conjunct2[OF hs]]]] c by (rule mp)
  show ?thesis
    by (intro conjI) (rule example_run example_events_scores a b c d)+
qed

section \<open>Where the code departs from its specification\<close>

lemma ebind_Inl_rest:
  "(\<And>v. \<exists>e. f v = Inl e) \<Longrightarrow> \<exists>e. ebind m f = Inl e"
  by (cases m) simp_all

lemma reg_update_step_L1: "reg_update_step L1_regularization eta lmbda n ws bs nw nb vs mu = Inl TypeError"
  by (simp add: reg_update_step_def)

text \<open>
  Claim C3 does not hold of the code. The \<^verbatim>\<open>update_step\<close> of \<^verbatim>\<open>L1_regularization\<close>
  takes seven parameters (no velocities, no momentum coefficient) and returns a pair,
  while \<^verbatim>\<open>update_mini_batch\<close> passes nine arguments and unpacks a triple: on a
  network configured with the L1 strategy, \<^verbatim>\<open>update_mini_batch\<close> never returns. On the
  example below it raises TypeError, where the same call succeeds with the L2 and the
  momentum strategies.
\<close>

theorem update_mini_batch_L1_raises:
  "reg self = L1_regularization \<Longrightarrow>
   \<exists>e. update_mini_batch self mini_batch eta lmbda n mu = Inl e"
  unfolding update_mini_batch_def
  by (intro ebind_Inl_rest) (simp add: reg_update_step_L1 split_beta)

lemma example_update_L1:
  "update_mini_batch (example_net L1_regularization p) example_training eta 0 1 mu = Inl TypeError"
  by (simp add: eval_defs example_training_def)

lemma example_update_momentum:
  "update_mini_batch (example_net momentum p) example_training eta 0 1 mu
     = Inr (example_net momentum p)"
  by (simp add: eval_defs example_training_def momentum_update_step_def)

theorem update_mini_batch_L1_raises_witness:
  "reg (example_net L1_regularization 10) = L1_regularization \<and>
   update_mini_batch (example_net L1_regularization 10) example_training 1 0 1 (1 / 2)
     = Inl TypeError \<and>
   update_mini_batch (example_net L2_regularization 10) example_training 1 0 1 (1 / 2)
     = Inr (example_net L2_regularization 10) \<and>
   update_mini_batch (example_net momentum 10) example_training 1 0 1 (1 / 2)
     = Inr (example_net momentum 10)"
proof -
  have r: "reg (example_net L1_regularization 10) = L1_regularization"
    by (simp add: example_net_def)
  from update_mini_batch_L1_raises [OF r, of example_training 1 0 1 "1 / 2"]
  obtain e where e: "update_mini_batch (example_net L1_regularization 10) example_training 1 0 1 (1 / 2)
      = Inl e"
    by blast
  have "e = TypeError" using e example_update_L1[where p = 10 and eta = 1 and mu = "1 / 2"] by simp
  then have a: "update_mini_batch (example_net L1_regularization 10) example_training 1 0 1 (1 / 2)
      = Inl TypeError"
    using e by simp
  have l2: "example_net L2_regularization 10
      = (example_net L2_regularization 10)\<lparr>learning_rate := LearningRate_init 10\<rparr>"
    by (simp add: example_net_def)
  have b: "update_mini_batch (example_net L2_regularization 10) example_training 1 0 1 (1 / 2)
     = Inr (example_net L2_regularization 10)"
    using example_update[where p = 10 and lr = "LearningRate_init 10" and eta = 1 and mu = "1 / 2"] l2 by simp
  show ?thesis
    by (intro conjI) (rule r a b example_update_momentum)+
qed

lemma SGD_epoch_None:
  "\<exists>e. SGD_epoch shuffle n mbs lmbda mu None j st = Inl e"
proof -
  obtain self td eta out where st: "st = (self, td, eta, out)" by (cases st) auto
  show ?thesis
    unfolding st SGD_epoch_def prod.case Let_def
    by (rule ebind_Inl_rest, rule ebind_Inl_rest, simp add: evaluate_None)
qed

lemma SGD_None:
  assumes "0 < epochs"
  shows "\<exists>e. SGD shuffle self training_data epochs mini_batch_size eta lmbda mu None = Inl e"
proof -
  have u: "[0..<nat epochs] = 0 # [1..<nat epochs]" using assms by (simp add: upt_conv_Cons)
  obtain e where e: "SGD_epoch shuffle (length training_data) mini_batch_size lmbda mu None 0
      (self, training_data, eta, []) = Inl e"
    using SGD_epoch_None by blast
  show ?thesis unfolding SGD_def u by (simp add: e)
qed

text \<open>
  Claim C4 holds of \<^verbatim>\<open>evaluate\<close> on an empty test set, which returns 0, and fails when
  the test data is absent: \<^verbatim>\<open>SGD\<close> passes its \<open>None\<close> to \<^verbatim>\<open>evaluate\<close>, which iterates
  over it and raises TypeError, so no run of at least one epoch without test data
  returns.
\<close>

theorem evaluate_without_test_data:
  "evaluate self (Some []) = Inr 0 \<and>
   evaluate self None = Inl TypeError \<and>
   (0 < epochs \<longrightarrow>
      (\<exists>e. SGD shuffle self training_data epochs mini_batch_size eta lmbda mu None = Inl e))"
  using SGD_None by (simp add: evaluate_empty evaluate_None)

lemma example_SGD_None:
  "SGD (\<lambda>j xs. xs) (example_net L2_regularization 10) example_training 1 1 1 0 (1 / 2) None
     = Inl TypeError"
proof -
  let ?net = "(example_net L2_regularization 10)\<lparr>learning_rate := LearningRate_init 10\<rparr>"
  have start: "example_net L2_regularization 10 = ?net" by (simp add: example_net_def)
  have len: "length example_training = 1" by (simp add: example_training_def)
  have u1: "[0..<nat 1] = [0]" by simp
  have r: "py_range_step 1 1 = Inr [0]" by (simp add: py_range_step_def)
  have b: "map (\<lambda>k. take (nat 1) (drop k example_training)) [0] = [example_training]"
    by (simp add: example_training_def)
  have u: "update_mini_batches ?net [example_training] 1 0 (int 1) (1 / 2) = Inr ?net"
    by (simp add: example_update)
  have ep: "SGD_epoch (\<lambda>j xs. xs) 1 1 0 (1 / 2) None 0 (?net, example_training, 1, []) = Inl TypeError"
    by (simp only: SGD_epoch_def prod.case Let_def r ebind_Inr b u evaluate_None ebind_Inl)
  show ?thesis
    unfolding SGD_def len u1
    by (subst start) (simp only: SGD_loop.simps ep ebind_Inl)
qed

theorem evaluate_without_test_data_witness:
  "evaluate (example_net L2_regularization 10) (Some []) = Inr 0 \<and>
   evaluate (example_net L2_regularization 10) None = Inl TypeError \<and>
   (0::int) < 1 \<and>
   SGD (\<lambda>j xs. xs) (example_net L2_regularization 10) example_training 1 1 1 0 (1 / 2) None
     = Inl TypeError"
proof -
  note t = evaluate_without_test_data [of "example_net L2_regularization 10" 1 "\<lambda>j xs. xs"
      example_training 1 1 0 "1 / 2"]
  have a: "evaluate (example_net L2_regularization 10) (Some []) = Inr 0"
    using t by (rule conjunct1)
  have b: "evaluate (example_net L2_regularization 10) None = Inl TypeError"
    using t by (rule conjunct1[OF conjunct2])
  have c: "(0::int) < 1" by simp
  show ?thesis
    by (intro conjI) (rule a b c example_SGD_None)+
qed

lemma Network_init_learning_rate:
  "Network_init randn szs c r p = Inr self \<Longrightarrow> learning_rate self = LearningRate_init p"
  by (auto simp add: Network_init_def ebind_eq_Inr)

lemma example_second_run:
  "SGD (\<lambda>j xs. xs) example_trained example_training 10 1 1 0 (1 / 2) example_test
   = Inr ((example_net L2_regularization 1)
            \<lparr>learning_rate := \<lparr>patience = 1, best_accuracy = 0, counter = 0, num_halves = 8,
                                 accuracies = [0, 0, 0, 0, 0, 0, 0, 0]\<rparr>\<rparr>,
          1 / 2,
          [EpochScore 0 0 1, LearningHalved (1 / 2), NumHalves 8])"
proof -
  have len: "length example_training = 1" by (simp add: example_training_def)
  show ?thesis
    unfolding SGD_def upt_10 len example_trained_def
    by (simp add: example_epoch del: One_nat_def)
qed

text \<open>
  Claim C9 does not hold of the code. The tracker is created by the constructor and
  \<^verbatim>\<open>SGD\<close> never resets it: after a first run that reached 7 halvings, the tracker
  holds \<open>num_halves = 7\<close> and the accuracies of that run, and a second run of 10 epochs
  on the same network starts from them and stops after its first epoch, with the
  learning rate halved once.
\<close>

theorem tracker_survives_SGD:
  "SGD (\<lambda>j xs. xs) (example_net L2_regularization 1) example_training 10 1 1 0 (1 / 2) example_test
     = Inr (example_trained, 1 / 128, example_events) \<and>
   learning_rate (example_net L2_regularization 1) = LearningRate_init 1 \<and>
   learning_rate example_trained \<noteq> LearningRate_init 1 \<and>
   num_halves (learning_rate example_trained) = 7 \<and>
   accuracies (learning_rate example_trained) = [0, 0, 0, 0, 0, 0, 0] \<and>
   SGD (\<lambda>j xs. xs) example_trained example_training 10 1 1 0 (1 / 2) example_test
     = Inr ((example_net L2_regularization 1)
              \<lparr>learning_rate := \<lparr>patience = 1, best_accuracy = 0, counter = 0, num_halves = 8,
                                   accuracies = [0, 0, 0, 0, 0, 0, 0, 0]\<rparr>\<rparr>,
            1 / 2,
            [EpochScore 0 0 1, LearningHalved (1 / 2), NumHalves 8])"
proof (intro conjI)
  show "SGD (\<lambda>j xs. xs) (example_net L2_regularization 1) example_training 10 1 1 0 (1 / 2)
      example_test = Inr (example_trained, 1 / 128, example_events)"
    by (rule example_run)
  show "learning_rate (example_net L2_regularization 1) = LearningRate_init 1"
    by (simp add: example_net_def)
  show "learning_rate example_trained \<noteq> LearningRate_init 1"
    by (simp add: example_trained_def LearningRate_init_def)
  show "num_halves (learning_rate example_trained) = 7"
    by (simp add: example_trained_def)
  show "accuracies (learning_rate example_trained) = [0, 0, 0, 0, 0, 0, 0]"
    by (simp add: example_trained_def)
  show "SGD (\<lambda>j xs. xs) example_trained example_training 10 1 1 0 (1 / 2) example_test
     = Inr ((example_net L2_regularization 1)
              \<lparr>learning_rate := \<lparr>patience = 1, best_accuracy = 0, counter = 0, num_halves = 8,
                                   accuracies = [0, 0, 0, 0, 0, 0, 0, 0]\<rparr>\<rparr>,
            1 / 2,
            [EpochScore 0 0 1, LearningHalved (1 / 2), NumHalves 8])"
    by (rule example_second_run)
qed

end
